theory Spec2Isabelle
  imports Complex_Main "HOL-Library.Sublist"
begin

section \<open>Reconnect state machine (web\_server.py, class ReconnectManager)\<close>

text \<open>
  The module constants of web\_server.py. Python floats are modelled by reals: every value
  that occurs below (a power of two up to \<open>2 ^ 1023\<close>, and 30) is exactly representable
  in binary64, so no rounding takes place.
\<close>

definition MAX_RECONNECT_ATTEMPTS :: nat where
  "MAX_RECONNECT_ATTEMPTS = 5"

definition INITIAL_RECONNECT_DELAY :: real where
  "INITIAL_RECONNECT_DELAY = 1"

definition MAX_RECONNECT_DELAY :: real where
  "MAX_RECONNECT_DELAY = 30"

definition RECONNECT_BACKOFF_FACTOR :: real where
  "RECONNECT_BACKOFF_FACTOR = 2"

text \<open>
  The fields of ReconnectManager. The attempt counter starts at 0 and is only ever
  incremented or reset to 0, hence a natural number.
\<close>

record reconnect_manager =
  reconnect_attempts :: nat
  last_reconnect_time :: real
  is_reconnecting :: bool

definition new_reconnect_manager :: reconnect_manager where
  "new_reconnect_manager =
     \<lparr>reconnect_attempts = 0, last_reconnect_time = 0, is_reconnecting = False\<rparr>"

text \<open>
  \<open>should_reconnect(error_code)\<close>: the argument is \<open>None\<close> or an integer. The two
  tests on the code are kept as in the source, although the first is subsumed by the second.
\<close>

definition should_reconnect :: "reconnect_manager \<Rightarrow> int option \<Rightarrow> bool" where
  "should_reconnect m error_code =
     (if reconnect_attempts m \<ge> MAX_RECONNECT_ATTEMPTS then False
      else if error_code = Some 1011 then True
      else if error_code \<in> set (map Some [1006, 1011, 1012, 1013, 1014, 1015]) then True
      else False)"

text \<open>
  \<open>RECONNECT_BACKOFF_FACTOR ** n\<close> in binary64: the factor is 2.0, so the power is exact
  while it is below \<open>2 ^ 1024\<close>, and from \<open>n = 1024\<close> on Python raises
  \<open>OverflowError\<close> (the result is out of range).
\<close>

datatype py_error = OverflowError

definition backoff_power :: "nat \<Rightarrow> py_error + real" where
  "backoff_power n =
     (if n < 1024 then Inr (RECONNECT_BACKOFF_FACTOR ^ n) else Inl OverflowError)"

definition get_reconnect_delay :: "reconnect_manager \<Rightarrow> int option \<Rightarrow> py_error + real" where
  "get_reconnect_delay m error_code =
     (if error_code = Some 1011 then Inr 0
      else case backoff_power (reconnect_attempts m) of
             Inl e \<Rightarrow> Inl e
           | Inr p \<Rightarrow> Inr (min (INITIAL_RECONNECT_DELAY * p) MAX_RECONNECT_DELAY))"

definition increment_attempts :: "real \<Rightarrow> reconnect_manager \<Rightarrow> reconnect_manager" where
  "increment_attempts now m =
     m\<lparr>reconnect_attempts := reconnect_attempts m + 1, last_reconnect_time := now\<rparr>"

definition reset :: "reconnect_manager \<Rightarrow> reconnect_manager" where
  "reset m = m\<lparr>reconnect_attempts := 0, last_reconnect_time := 0, is_reconnecting := False\<rparr>"

section \<open>Python strings\<close>

text \<open>
  A Python \<open>str\<close> is a sequence of Unicode code points, and \<open>len\<close> counts code
  points: a string is modelled as the list of its code points.
\<close>

type_synonym ustring = "nat list"

text \<open>An ASCII literal as a string of code points.\<close>

abbreviation ustr :: "string \<Rightarrow> ustring" where
  "ustr s \<equiv> map of_char s"

text \<open>
  The characters that \<open>str.strip\<close>, \<open>str.lstrip\<close>, \<open>str.rstrip\<close> remove and
  that the class of white space matches in a regular expression on \<open>str\<close> (those with \<open>str.isspace\<close>).
\<close>

definition is_space :: "nat \<Rightarrow> bool" where
  "is_space c \<longleftrightarrow>
     (0x09 \<le> c \<and> c \<le> 0x0D) \<or> (0x1C \<le> c \<and> c \<le> 0x20) \<or> c = 0x85 \<or> c = 0xA0 \<or>
     c = 0x1680 \<or> (0x2000 \<le> c \<and> c \<le> 0x200A) \<or> c = 0x2028 \<or> c = 0x2029 \<or>
     c = 0x202F \<or> c = 0x205F \<or> c = 0x3000"

definition lstrip :: "ustring \<Rightarrow> ustring" where
  "lstrip s = dropWhile is_space s"

definition rstrip :: "ustring \<Rightarrow> ustring" where
  "rstrip s = rev (dropWhile is_space (rev s))"

definition strip :: "ustring \<Rightarrow> ustring" where
  "strip s = lstrip (rstrip s)"

text \<open>\<open>s.find(sub)\<close> and \<open>s.rfind(sub)\<close>, with \<open>None\<close> for the result \<open>-1\<close>.\<close>

fun str_find :: "'a list \<Rightarrow> 'a list \<Rightarrow> nat option" where
  "str_find [] sub = (if sub = [] then Some 0 else None)"
| "str_find (x # xs) sub =
     (if prefix sub (x # xs) then Some 0 else map_option Suc (str_find xs sub))"

fun str_rfind :: "'a list \<Rightarrow> 'a list \<Rightarrow> nat option" where
  "str_rfind [] sub = (if sub = [] then Some 0 else None)"
| "str_rfind (x # xs) sub =
     (case str_rfind xs sub of
        Some i \<Rightarrow> Some (Suc i)
      | None \<Rightarrow> if prefix sub (x # xs) then Some 0 else None)"

text \<open>\<open>s.replace(old, new)\<close>: the occurrences of \<open>old\<close>, left to right, without overlap.\<close>

fun str_replace :: "'a list \<Rightarrow> 'a list \<Rightarrow> 'a list \<Rightarrow> 'a list" where
  "str_replace [] old new = (if old = [] then new else [])"
| "str_replace (x # xs) old new =
     (if old = [] then new @ x # str_replace xs old new
      else if prefix old (x # xs) then new @ str_replace (drop (length old) (x # xs)) old new
      else x # str_replace xs old new)"

section \<open>Chatbox text (osc\_manager.py, class OSCManager)\<close>

definition MAX_LENGTH :: nat where
  "MAX_LENGTH = 144"

subsection \<open>\_truncate\_text\<close>

text \<open>The list SENTENCE\_ENDERS, in the order of the source; the tenth entry is the three dots.\<close>

definition SENTENCE_ENDERS :: "ustring list" where
  "SENTENCE_ENDERS =
     [[0x2E], [0x3F], [0x21], [0x2C],
      [0x3002], [0xFF1F], [0xFF01], [0xFF0C],
      [0x2026], [0x2E, 0x2E, 0x2E], [0x203D],
      [0x0589], [0x061F], [0x3B], [0x060C],
      [0x0964], [0x0965], [0x1362], [0x104B], [0x0F0D],
      [0x3001], [0x201A], [0x066B]]"

text \<open>
  The \<open>for\<close> loop over the enders: the least index at which any of them is found
  (\<open>first_sentence_end\<close>, \<open>None\<close> for \<open>-1\<close>).
\<close>

definition first_sentence_end_step :: "ustring \<Rightarrow> ustring \<Rightarrow> nat option \<Rightarrow> nat option" where
  "first_sentence_end_step text ender first =
     (case str_find text ender of
        None \<Rightarrow> first
      | Some idx \<Rightarrow>
          (case first of
             None \<Rightarrow> Some idx
           | Some f \<Rightarrow> if idx < f then Some idx else Some f))"

definition first_sentence_end :: "ustring \<Rightarrow> nat option" where
  "first_sentence_end text = fold (first_sentence_end_step text) SENTENCE_ENDERS None"

text \<open>
  The \<open>while\<close> loop: while the text is too long, drop the first sentence and the white
  space after it; when no ender is left, keep the last \<open>max_length\<close> characters and stop.
\<close>

function truncate_loop :: "ustring \<Rightarrow> nat \<Rightarrow> ustring" where
  "truncate_loop text max_length =
     (if length text > max_length then
        (case first_sentence_end text of
           Some e \<Rightarrow> truncate_loop (lstrip (drop (e + 1) text)) max_length
         | None \<Rightarrow> drop (length text - max_length) text)
      else text)"
  by pat_completeness auto
termination
proof (relation "measure (\<lambda>(text, max_length). length text)")
  show "wf (measure (\<lambda>(text, max_length). length text))"
    by simp
next
  fix t :: ustring and m e :: nat
  assume "m < length t"
  then have "length (drop (e + 1) t) < length t"
    by simp
  moreover have "length (lstrip (drop (e + 1) t)) \<le> length (drop (e + 1) t)"
    unfolding lstrip_def by (rule length_dropWhile_le)
  ultimately show "((lstrip (drop (e + 1) t), m), (t, m))
      \<in> measure (\<lambda>(text, max_length). length text)"
    by simp
qed

declare truncate_loop.simps [simp del]

definition truncate_text :: "ustring \<Rightarrow> nat \<Rightarrow> ustring" where
  "truncate_text text max_length =
     (if length text \<le> max_length then text else truncate_loop text max_length)"

subsection \<open>The final sentence of a text\<close>

text \<open>
  The characters that end a sentence for \<open>_truncate_text\<close>: the one-character entries of
  SENTENCE\_ENDERS (the three dots begin with one of them).
\<close>

definition ender_char :: "nat \<Rightarrow> bool" where
  "ender_char c \<longleftrightarrow> [c] \<in> set SENTENCE_ENDERS"





subsection \<open>\_split\_confirmed\_unconfirmed\<close>

text \<open>The two delimiters: three dots, and two horizontal ellipsis characters (U+2026).\<close>

definition THREE_DOTS :: ustring where
  "THREE_DOTS = [0x2E, 0x2E, 0x2E]"

definition CJK_ELLIPSIS :: ustring where
  "CJK_ELLIPSIS = [0x2026, 0x2026]"

text \<open>\<open>text.replace("\r\n", "\n").replace("\r", "\n")\<close>\<close>

definition normalize_newlines :: "ustring \<Rightarrow> ustring" where
  "normalize_newlines text = str_replace (str_replace text [0x0D, 0x0A] [0x0A]) [0x0D] [0x0A]"

text \<open>
  The inner function \<open>find_last_delim\<close>, with the text it closes over as its first
  argument; \<open>None\<close> is its result \<open>-1\<close>.
\<close>

definition find_last_delim :: "ustring \<Rightarrow> ustring \<Rightarrow> nat option" where
  "find_last_delim text delim =
     (case str_rfind text delim of
        None \<Rightarrow> None
      | Some idx \<Rightarrow>
          (let left = take idx text;
               right = drop (idx + length delim) text
           in if strip left \<noteq> [] \<and> strip right \<noteq> [] then Some idx else None))"

definition split_confirmed_unconfirmed :: "ustring \<Rightarrow> (ustring \<times> ustring \<times> ustring) option" where
  "split_confirmed_unconfirmed text0 =
     (if text0 = [] then None
      else
        let text = normalize_newlines text0;
            (idx, delim) =
              (case find_last_delim text THREE_DOTS of
                 Some i \<Rightarrow> (Some i, THREE_DOTS)
               | None \<Rightarrow> (find_last_delim text CJK_ELLIPSIS, CJK_ELLIPSIS))
        in case idx of
             None \<Rightarrow> None
           | Some i \<Rightarrow>
               Some (rstrip (take i text), delim, strip (drop (i + length delim) text)))"

subsection \<open>The split in the words of the specification\<close>

text \<open>The positions at which \<open>p\<close> occurs in \<open>t\<close>, in increasing order, and the last of them.\<close>

definition occurrences :: "'a list \<Rightarrow> 'a list \<Rightarrow> nat list" where
  "occurrences t p = filter (\<lambda>i. prefix p (drop i t)) [0..<length t + 1]"

definition last_occurrence :: "'a list \<Rightarrow> 'a list \<Rightarrow> nat option" where
  "last_occurrence t p = (if occurrences t p = [] then None else Some (last (occurrences t p)))"

text \<open>A text is non-empty after trimming when it has a character that is not white space.\<close>

definition nonempty_trimmed :: "ustring \<Rightarrow> bool" where
  "nonempty_trimmed s \<longleftrightarrow> (\<exists>c\<in>set s. \<not> is_space c)"

text \<open>
  A candidate, the delimiter \<open>d\<close> at position \<open>i\<close>, is valid when the text before it and
  the text after it are both non-empty after trimming; the split it gives.
\<close>

definition valid_candidate :: "ustring \<Rightarrow> ustring \<Rightarrow> nat \<Rightarrow> bool" where
  "valid_candidate t d i \<longleftrightarrow>
     nonempty_trimmed (take i t) \<and> nonempty_trimmed (drop (i + length d) t)"

definition split_at :: "ustring \<Rightarrow> ustring \<Rightarrow> nat \<Rightarrow> ustring \<times> ustring \<times> ustring" where
  "split_at t d i = (rstrip (take i t), d, strip (drop (i + length d) t))"

text \<open>
  The split as the specification words it: the candidate is the last occurrence of the
  three dots, or, if the three dots are absent, the last occurrence of the CJK ellipsis.
\<close>

definition split_as_specified :: "ustring \<Rightarrow> (ustring \<times> ustring \<times> ustring) option" where
  "split_as_specified text0 =
     (if text0 = [] then None
      else
        let t = normalize_newlines text0;
            candidate =
              (case last_occurrence t THREE_DOTS of
                 Some i \<Rightarrow> Some (i, THREE_DOTS)
               | None \<Rightarrow> map_option (\<lambda>i. (i, CJK_ELLIPSIS)) (last_occurrence t CJK_ELLIPSIS))
        in case candidate of
             None \<Rightarrow> None
           | Some (i, d) \<Rightarrow> if valid_candidate t d i then Some (split_at t d i) else None)"

text \<open>
  The split as the code makes it: the CJK ellipsis is also tried when the last
  occurrence of the three dots is not a valid candidate.
\<close>

definition valid_last_occurrence :: "ustring \<Rightarrow> ustring \<Rightarrow> nat option" where
  "valid_last_occurrence t d =
     (case last_occurrence t d of
        None \<Rightarrow> None
      | Some i \<Rightarrow> if valid_candidate t d i then Some i else None)"

definition split_with_fallback :: "ustring \<Rightarrow> (ustring \<times> ustring \<times> ustring) option" where
  "split_with_fallback text0 =
     (if text0 = [] then None
      else
        let t = normalize_newlines text0
        in case valid_last_occurrence t THREE_DOTS of
             Some i \<Rightarrow> Some (split_at t THREE_DOTS i)
           | None \<Rightarrow>
               (case valid_last_occurrence t CJK_ELLIPSIS of
                  Some i \<Rightarrow> Some (split_at t CJK_ELLIPSIS i)
                | None \<Rightarrow> None))"

subsection \<open>\_insert\_newlines\_after\_sentence\_enders\<close>

text \<open>
  The substitution of a single space for white space: every maximal run of white space
  becomes one space.
\<close>

function collapse_whitespace :: "ustring \<Rightarrow> ustring" where
  "collapse_whitespace [] = []"
| "collapse_whitespace (c # cs) =
     (if is_space c then 0x20 # collapse_whitespace (dropWhile is_space cs)
      else c # collapse_whitespace cs)"
  by pat_completeness auto
termination
proof (relation "measure length")
  show "wf (measure length)"
    by simp
next
  fix c :: nat and cs :: ustring
  have "length (dropWhile is_space cs) \<le> length cs"
    by (rule length_dropWhile_le)
  then show "(dropWhile is_space cs, c # cs) \<in> measure length"
    by simp
next
  fix c :: nat and cs :: ustring
  show "(cs, c # cs) \<in> measure length"
    by simp
qed

text \<open>
  The first substitution: one of the six sentence enders of the character class (the
  ideographic full stop, the fullwidth and the ASCII exclamation and question marks, the
  horizontal ellipsis), not followed by a newline, together with the white space after
  it, becomes the ender and a newline.
\<close>

definition BREAKING_ENDERS :: "nat list" where
  "BREAKING_ENDERS = [0x3002, 0xFF01, 0xFF1F, 0x21, 0x3F, 0x2026]"

function break_after_enders :: "ustring \<Rightarrow> ustring" where
  "break_after_enders [] = []"
| "break_after_enders (c # cs) =
     (if c \<in> set BREAKING_ENDERS \<and> (cs = [] \<or> hd cs \<noteq> 0x0A)
      then c # 0x0A # break_after_enders (dropWhile is_space cs)
      else c # break_after_enders cs)"
  by pat_completeness auto
termination
proof (relation "measure length")
  show "wf (measure length)"
    by simp
next
  fix c :: nat and cs :: ustring
  have "length (dropWhile is_space cs) \<le> length cs"
    by (rule length_dropWhile_le)
  then show "(dropWhile is_space cs, c # cs) \<in> measure length"
    by simp
next
  fix c :: nat and cs :: ustring
  show "(cs, c # cs) \<in> measure length"
    by simp
qed

text \<open>
  The second substitution, for the full stop: it must not follow another full stop (the
  look-behind reads the character before it in the text, \<open>prev\<close>), it must stand at the
  end or before white space or a closing quote or bracket, and not before a newline; it
  is replaced, with the white space after it, by a full stop and a newline.
\<close>

definition CLOSERS :: "nat list" where
  "CLOSERS = [0x22, 0x27, 0x29, 0x5D, 0x7D, 0x300B, 0x300D, 0x300F, 0x201D, 0x2019]"

function break_after_full_stops :: "nat option \<Rightarrow> ustring \<Rightarrow> ustring" where
  "break_after_full_stops prev [] = []"
| "break_after_full_stops prev (c # cs) =
     (if c = 0x2E \<and> prev \<noteq> Some 0x2E
         \<and> (cs = [] \<or> is_space (hd cs) \<or> hd cs \<in> set CLOSERS)
         \<and> (cs = [] \<or> hd cs \<noteq> 0x0A)
      then 0x2E # 0x0A #
           break_after_full_stops
             (Some (if takeWhile is_space cs = [] then 0x2E else last (takeWhile is_space cs)))
             (dropWhile is_space cs)
      else c # break_after_full_stops (Some c) cs)"
  by pat_completeness auto
termination
proof (relation "measure (\<lambda>(prev, s). length s)")
  show "wf (measure (\<lambda>(prev, s). length s))"
    by simp
next
  fix prev :: "nat option" and c :: nat and cs :: ustring
  have "length (dropWhile is_space cs) \<le> length cs"
    by (rule length_dropWhile_le)
  then show "((Some (if takeWhile is_space cs = [] then 0x2E else last (takeWhile is_space cs)),
               dropWhile is_space cs), (prev, c # cs)) \<in> measure (\<lambda>(prev, s). length s)"
    by simp
next
  fix prev :: "nat option" and c :: nat and cs :: ustring
  show "((Some c, cs), (prev, c # cs)) \<in> measure (\<lambda>(prev, s). length s)"
    by simp
qed

definition insert_newlines_after_sentence_enders :: "ustring \<Rightarrow> ustring" where
  "insert_newlines_after_sentence_enders text =
     (if text = [] then text
      else break_after_full_stops None (break_after_enders (normalize_newlines text)))"

subsection \<open>\_format\_text\_for\_chatbox\<close>

text \<open>The decimal digits of a number, as \<open>str\<close> and an f-string print it.\<close>

fun str_of_nat :: "nat \<Rightarrow> ustring" where
  "str_of_nat n = (if n < 10 then [0x30 + n] else str_of_nat (n div 10) @ [0x30 + n mod 10])"

declare str_of_nat.simps [simp del]

definition bracketed_placeholder :: "nat \<Rightarrow> ustring" where
  "bracketed_placeholder idx = ustr ''__BRACKETED_'' @ str_of_nat idx @ ustr ''__''"

text \<open>
  The substitution of the bracketed spans, with the list \<open>bracketed_segments\<close> that the
  replacer appends to: a span runs from an opening bracket to the next closing bracket;
  its content, white space collapsed and trimmed, is stored, and a placeholder with its
  index takes its place.
\<close>

function protect_brackets :: "ustring \<Rightarrow> ustring list \<Rightarrow> ustring \<times> ustring list" where
  "protect_brackets [] bracketed_segments = ([], bracketed_segments)"
| "protect_brackets (c # cs) bracketed_segments =
     (if c = 0x5B then
        (case str_find cs [0x5D] of
           Some k \<Rightarrow>
             (let content = strip (collapse_whitespace (c # take (k + 1) cs));
                  (rest, segments) =
                     protect_brackets (drop (k + 1) cs) (bracketed_segments @ [content])
              in (bracketed_placeholder (length bracketed_segments) @ rest, segments))
         | None \<Rightarrow>
             (let (rest, segments) = protect_brackets cs bracketed_segments
              in (c # rest, segments)))
      else
        (let (rest, segments) = protect_brackets cs bracketed_segments
         in (c # rest, segments)))"
  by pat_completeness auto
termination
  by (relation "measure (\<lambda>(s, segments). length s)") auto

text \<open>
  The loop \<open>for idx, content in enumerate(bracketed_segments)\<close> that puts the contents
  back, one \<open>replace\<close> per segment, in order.
\<close>

definition restore_brackets :: "ustring list \<Rightarrow> ustring \<Rightarrow> ustring" where
  "restore_brackets bracketed_segments formatted =
     fold (\<lambda>(idx, content) f. str_replace f (bracketed_placeholder idx) content)
       (enumerate 0 bracketed_segments) formatted"

definition format_text_for_chatbox :: "ustring \<Rightarrow> ustring" where
  "format_text_for_chatbox text0 =
     (if text0 = [] then text0
      else
        let text = normalize_newlines text0;
            (protected_text, bracketed_segments) = protect_brackets text []
        in case split_confirmed_unconfirmed protected_text of
             None \<Rightarrow>
               restore_brackets bracketed_segments
                 (insert_newlines_after_sentence_enders protected_text)
           | Some (confirmed, delim, unconfirmed) \<Rightarrow>
               (let confirmed_formatted = rstrip (insert_newlines_after_sentence_enders confirmed);
                    unconfirmed_single_line = strip (collapse_whitespace unconfirmed)
                in if confirmed_formatted = [] then unconfirmed_single_line
                   else if unconfirmed_single_line = [] then
                     restore_brackets bracketed_segments confirmed_formatted
                   else
                     restore_brackets bracketed_segments
                       (confirmed_formatted @ delim @ [0x0A] @ unconfirmed_single_line)))"

section \<open>Python values, exceptions and time\<close>

text \<open>
  The values that \<open>json.loads\<close> returns and that the session variables hold. A dict is
  the list of its items; the first binding of a key is the one the dict has.
\<close>

datatype pyval =
    PNone
  | PBool bool
  | PInt int
  | PFloat real
  | PStr ustring
  | PList "pyval list"
  | PDict "(ustring \<times> pyval) list"

text \<open>The truth value of a value, as \<open>if x:\<close> and \<open>bool(x)\<close> take it.\<close>

fun truthy :: "pyval \<Rightarrow> bool" where
  "truthy PNone = False"
| "truthy (PBool b) = b"
| "truthy (PInt i) = (i \<noteq> 0)"
| "truthy (PFloat r) = (r \<noteq> 0)"
| "truthy (PStr s) = (s \<noteq> [])"
| "truthy (PList l) = (l \<noteq> [])"
| "truthy (PDict d) = (d \<noteq> [])"

text \<open>\<open>d.get(key, fallback)\<close>; \<open>d.get(key)\<close> is \<open>dict_get d key PNone\<close>.\<close>

definition dict_get :: "(ustring \<times> pyval) list \<Rightarrow> ustring \<Rightarrow> pyval \<Rightarrow> pyval" where
  "dict_get d key fallback = (case map_of d key of Some v \<Rightarrow> v | None \<Rightarrow> fallback)"

text \<open>
  An exception, as the handler of the endpoint reads it: its class, the value of
  \<open>getattr(e, 'code', None)\<close> (an integer close code, when there is one), and
  \<open>e.args\<close>, each argument as \<open>str\<close> prints it.
\<close>

datatype exc_class =
    TimeoutError
  | ConnectionClosedError
  | ConnectionClosedOK
  | JSONDecodeError
  | AttributeError
  | ValueError
  | OtherException

record py_exception =
  exc_class :: exc_class
  exc_code :: "int option"
  exc_args :: "ustring list"

text \<open>
  What \<open>asyncio.wait_for\<close> raises when the time is over: a \<open>TimeoutError\<close> without
  arguments; it has no attribute \<open>code\<close>.
\<close>

definition timeout_error :: py_exception where
  "timeout_error = \<lparr>exc_class = TimeoutError, exc_code = None, exc_args = []\<rparr>"

text \<open>What a method call on \<open>None\<close> raises.\<close>

definition none_attribute_error :: py_exception where
  "none_attribute_error =
     \<lparr>exc_class = AttributeError, exc_code = None,
      exc_args = [ustr ''NoneType object has no attribute''] \<rparr>"

text \<open>
  \<open>int(x)\<close> of a float rounds towards zero. A reading \<open>now\<close> of \<open>time.time()\<close> is a
  real number; the event identifier is \<open>f"event_{int(time.time() * 1000)}"\<close>.
\<close>

definition int_of_float :: "real \<Rightarrow> int" where
  "int_of_float x = (if 0 \<le> x then \<lfloor>x\<rfloor> else \<lceil>x\<rceil>)"

definition str_of_int :: "int \<Rightarrow> ustring" where
  "str_of_int i = (if i < 0 then 0x2D # str_of_nat (nat (- i)) else str_of_nat (nat i))"

definition event_id :: "real \<Rightarrow> ustring" where
  "event_id now = ustr ''event_'' @ str_of_int (int_of_float (now * 1000))"

section \<open>Upstream session client (web\_translate\_client.py, class WebTranslateClient)\<close>

text \<open>
  The events the client sends upstream, each given by the fields of the JSON object that
  is sent: the event identifier; for \<open>session.update\<close> the modalities, the voice when
  the key is present, and the translation language (the two audio formats are the
  constant \<open>pcm16\<close>); for the two \<open>append\<close> events the bytes that are sent in Base64.
\<close>

datatype upstream_event =
    SessionUpdate ustring "ustring list" "pyval option" pyval
  | InputAudioBufferAppend ustring "nat list"
  | InputImageBufferAppend ustring "nat list"

text \<open>
  The upstream connection \<open>self.ws\<close>: what has been sent on it, and, once it is closed,
  the exception that \<open>send\<close> raises from then on.
\<close>

record ws_conn =
  sent :: "upstream_event list"
  closed :: "py_exception option"

definition ws_send :: "ws_conn \<Rightarrow> upstream_event \<Rightarrow> py_exception + ws_conn" where
  "ws_send w ev =
     (case closed w of
        None \<Rightarrow> Inr (w\<lparr>sent := sent w @ [ev]\<rparr>)
      | Some e \<Rightarrow> Inl e)"

definition closed_ok :: py_exception where
  "closed_ok = \<lparr>exc_class = ConnectionClosedOK, exc_code = Some 1000, exc_args = []\<rparr>"

definition ws_close :: "ws_conn \<Rightarrow> ws_conn" where
  "ws_close w = (case closed w of None \<Rightarrow> w\<lparr>closed := Some closed_ok\<rparr> | Some e \<Rightarrow> w)"

record client =
  api_key :: ustring
  target_language :: pyval
  audio_enabled :: pyval
  voice :: pyval
  ws :: "ws_conn option"
  is_connected :: bool
  is_processing_audio :: bool
  osc_mute_control_enabled :: bool
  send_to_osc_enabled :: bool
  translation_start_time :: "real option"

definition input_rate :: nat where
  "input_rate = 16000"

text \<open>\<open>__init__\<close>: an empty key raises \<open>ValueError\<close>.\<close>

definition empty_key_error :: py_exception where
  "empty_key_error =
     \<lparr>exc_class = ValueError, exc_code = None, exc_args = [ustr ''API key cannot be empty.'']\<rparr>"

definition new_client ::
  "ustring \<Rightarrow> pyval \<Rightarrow> pyval \<Rightarrow> pyval \<Rightarrow> bool \<Rightarrow> bool \<Rightarrow> py_exception + client" where
  "new_client key language voice_arg audio_arg osc_mute_control send_to_osc =
     (if key = [] then Inl empty_key_error
      else Inr \<lparr>api_key = key,
                target_language = language,
                audio_enabled = audio_arg,
                voice = (if truthy audio_arg then voice_arg else PStr (ustr ''Cherry'')),
                ws = None,
                is_connected = False,
                is_processing_audio = True,
                osc_mute_control_enabled = osc_mute_control,
                send_to_osc_enabled = send_to_osc,
                translation_start_time = None\<rparr>)"

text \<open>
  \<open>_send_silence\<close>: nothing without a connection; otherwise one \<open>append\<close> event with
  \<open>int(input_rate * duration_seconds)\<close> samples of two zero bytes each. An exception of
  \<open>send\<close> is caught. \<open>now\<close> is the clock when the event is built.
\<close>

definition silence_data :: "real \<Rightarrow> nat list" where
  "silence_data duration_seconds =
     replicate (nat (int_of_float (real input_rate * duration_seconds)) * 2) 0"

definition send_silence :: "real \<Rightarrow> real \<Rightarrow> client \<Rightarrow> client" where
  "send_silence now duration_seconds c =
     (if \<not> is_connected c then c
      else case ws c of
             None \<Rightarrow> c
           | Some w \<Rightarrow>
               (case ws_send w (InputAudioBufferAppend (event_id now) (silence_data duration_seconds)) of
                  Inr w' \<Rightarrow> c\<lparr>ws := Some w'\<rparr>
                | Inl e \<Rightarrow> c))"

text \<open>
  \<open>pause_audio_processing\<close>, with the clock \<open>start\<close> when the start time is recorded
  and the clock \<open>now\<close> when the silence is sent; \<open>resume_audio_processing\<close>.
\<close>

definition pause_audio_processing :: "real \<Rightarrow> real \<Rightarrow> client \<Rightarrow> client" where
  "pause_audio_processing start now c =
     (if is_processing_audio c
      then send_silence now 3.0 (c\<lparr>is_processing_audio := False, translation_start_time := Some start\<rparr>)
      else c)"

definition resume_audio_processing :: "client \<Rightarrow> client" where
  "resume_audio_processing c = c\<lparr>is_processing_audio := True\<rparr>"

text \<open>
  The callback \<open>handle_mute_change\<close> that \<open>create_and_connect_client\<close> registers for the
  mute signal of the overlay (web\_server.py).
\<close>

definition handle_mute_change :: "real \<Rightarrow> real \<Rightarrow> bool \<Rightarrow> client \<Rightarrow> client" where
  "handle_mute_change start now mute_value c =
     (if \<not> osc_mute_control_enabled c then c
      else if mute_value then pause_audio_processing start now c
      else resume_audio_processing c)"

text \<open>The event of \<open>configure_session\<close> and \<open>update_session\<close>.\<close>

definition session_config :: "real \<Rightarrow> client \<Rightarrow> upstream_event" where
  "session_config now c =
     SessionUpdate (event_id now)
       (if truthy (audio_enabled c) then [ustr ''text'', ustr ''audio''] else [ustr ''text''])
       (if truthy (audio_enabled c) \<and> truthy (voice c) then Some (voice c) else None)
       (target_language c)"

definition configure_session :: "real \<Rightarrow> client \<Rightarrow> py_exception + client" where
  "configure_session now c =
     (case ws c of
        None \<Rightarrow> Inl none_attribute_error
      | Some w \<Rightarrow>
          (case ws_send w (session_config now c) of
             Inl e \<Rightarrow> Inl e
           | Inr w' \<Rightarrow> Inr (c\<lparr>ws := Some w'\<rparr>)))"

text \<open>
  \<open>connect\<close>: \<open>outcome\<close> is what \<open>websockets.connect\<close> gives, a connection or an
  exception. An exception, also one of \<open>configure_session\<close>, is raised again.
\<close>

definition connect :: "real \<Rightarrow> py_exception + ws_conn \<Rightarrow> client \<Rightarrow> py_exception + client" where
  "connect now outcome c =
     (case outcome of
        Inl e \<Rightarrow> Inl e
      | Inr w \<Rightarrow> configure_session now (c\<lparr>ws := Some w, is_connected := True\<rparr>))"

text \<open>
  \<open>update_session\<close>: the fields are set first; the result is the client and the
  exception of \<open>send\<close>, if any.
\<close>

definition update_session ::
  "real \<Rightarrow> pyval \<Rightarrow> pyval \<Rightarrow> pyval \<Rightarrow> client \<Rightarrow> py_exception option \<times> client" where
  "update_session now language voice_arg audio_arg c =
     (let c1 = c\<lparr>target_language := (if language \<noteq> PNone then language else target_language c),
                  voice := (if voice_arg \<noteq> PNone then voice_arg else voice c),
                  audio_enabled := (if audio_arg \<noteq> PNone then audio_arg else audio_enabled c)\<rparr>
      in case ws c1 of
           None \<Rightarrow> (Some none_attribute_error, c1)
         | Some w \<Rightarrow>
             (case ws_send w (session_config now c1) of
                Inl e \<Rightarrow> (Some e, c1)
              | Inr w' \<Rightarrow> (None, c1\<lparr>ws := Some w'\<rparr>)))"

definition send_audio_chunk :: "real \<Rightarrow> nat list \<Rightarrow> client \<Rightarrow> py_exception option \<times> client" where
  "send_audio_chunk now audio_data c =
     (if \<not> is_connected c then (None, c)
      else if \<not> is_processing_audio c then (None, c)
      else case ws c of
             None \<Rightarrow> (Some none_attribute_error, c)
           | Some w \<Rightarrow>
               (case ws_send w (InputAudioBufferAppend (event_id now) audio_data) of
                  Inl e \<Rightarrow> (Some e, c)
                | Inr w' \<Rightarrow> (None, c\<lparr>ws := Some w'\<rparr>)))"

text \<open>\<open>close\<close>\<close>

definition close :: "client \<Rightarrow> client" where
  "close c = c\<lparr>is_connected := False, ws := map_option ws_close (ws c)\<rparr>"

text \<open>
  \<open>create_and_connect_client\<close> (web\_server.py): the constructor with the arguments as
  they are given, then \<open>connect\<close>.
\<close>

definition create_and_connect_client ::
  "real \<Rightarrow> py_exception + ws_conn \<Rightarrow> ustring \<Rightarrow> pyval \<Rightarrow> pyval \<Rightarrow> pyval \<Rightarrow> bool \<Rightarrow> bool
     \<Rightarrow> py_exception + client" where
  "create_and_connect_client now outcome key language voice_arg audio_arg osc_mute_control send_to_osc =
     (case new_client key language voice_arg audio_arg osc_mute_control send_to_osc of
        Inl e \<Rightarrow> Inl e
      | Inr c \<Rightarrow> connect now outcome c)"

section \<open>Connection supervisor (web\_server.py, websocket\_endpoint)\<close>

text \<open>
  The variables of \<open>websocket_endpoint\<close>. Its parameters \<open>target_language\<close>, \<open>voice\<close>
  and \<open>audio_enabled\<close> are variables like the others (the handling of a
  \<open>session.update\<close> frame assigns two of them); they and \<open>api_key\<close> carry the suffix
  \<open>_var\<close> here, to tell them from the fields of the client. A task is running, done or
  cancelled; the video queue holds the frames and the \<open>None\<close> that ends the sender.
\<close>

datatype task_state = Running | Done | Cancelled

record endpoint =
  api_key_var :: ustring
  target_language_var :: pyval
  voice_var :: pyval
  audio_enabled_var :: pyval
  osc_mute_control :: bool
  send_to_osc :: bool
  line_breaks_enabled :: bool
  reconnect_manager :: reconnect_manager
  client :: "client option"
  message_task :: "task_state option"
  video_sender_task :: "task_state option"
  websocket_active :: bool
  video_queue :: "nat list option list"

text \<open>
  The exception handler of the outer loop. The error code is the attribute \<open>code\<close> of
  the exception, replaced by 1011 when \<open>str(e.args[0])\<close> contains \<open>1011\<close>.
\<close>

definition error_code_of :: "py_exception \<Rightarrow> int option" where
  "error_code_of e =
     (if exc_args e \<noteq> [] \<and> str_find (hd (exc_args e)) (ustr ''1011'') \<noteq> None
      then Some 1011 else exc_code e)"

definition cancel_if_pending :: "task_state option \<Rightarrow> task_state option" where
  "cancel_if_pending task = (if task = Some Running then Some Cancelled else task)"

text \<open>
  When the classifier answers retry: the attempt is counted, the delay computed (an
  exception of that computation leaves the endpoint), the tasks are cancelled, the client
  is closed and forgotten, and the outer loop goes on after the delay. Otherwise the
  session ends: \<open>websocket_active = False\<close> and \<open>break\<close>.
\<close>

definition handle_error :: "real \<Rightarrow> py_exception \<Rightarrow> endpoint \<Rightarrow> py_error + endpoint" where
  "handle_error now e s =
     (let error_code = error_code_of e in
      if should_reconnect (reconnect_manager s) error_code then
        (let m = increment_attempts now (reconnect_manager s) in
         case get_reconnect_delay m error_code of
           Inl err \<Rightarrow> Inl err
         | Inr delay \<Rightarrow>
             Inr (s\<lparr>reconnect_manager := m,
                    message_task := cancel_if_pending (message_task s),
                    video_queue :=
                      (if video_sender_task s \<noteq> None then video_queue s @ [None] else video_queue s),
                    video_sender_task := map_option (\<lambda>t. Cancelled) (video_sender_task s),
                    client := None\<rparr>))
      else Inr (s\<lparr>websocket_active := False\<rparr>))"

text \<open>
  Step 1 of the outer loop, when there is no client: a client is created from the
  variables of the endpoint and connected, the two tasks are started and the reconnect
  state is reset. \<open>outcome\<close> is what the connection attempt gives.
\<close>

definition create_client_step ::
  "real \<Rightarrow> real \<Rightarrow> py_exception + ws_conn \<Rightarrow> endpoint \<Rightarrow> py_error + endpoint" where
  "create_client_step now later outcome s =
     (case create_and_connect_client now outcome (api_key_var s) (target_language_var s)
             (voice_var s) (audio_enabled_var s) (osc_mute_control s) (send_to_osc s) of
        Inl e \<Rightarrow> handle_error later e s
      | Inr c \<Rightarrow>
          Inr (s\<lparr>client := Some c,
                 message_task := Some Running,
                 video_sender_task := Some Running,
                 reconnect_manager := reset (reconnect_manager s)\<rparr>))"

text \<open>
  A text frame of the browser. \<open>loads\<close> stands for \<open>json.loads\<close>, \<open>None\<close> when it
  raises; every exception in this part is caught and logged. A \<open>session.update\<close>
  assigns \<open>voice\<close> and \<open>audio_enabled\<close> (the language goes to the local \<open>lang\<close>) and
  then updates the session of the client.
\<close>

definition handle_text_frame ::
  "(ustring \<Rightarrow> pyval option) \<Rightarrow> real \<Rightarrow> ustring \<Rightarrow> endpoint \<Rightarrow> endpoint" where
  "handle_text_frame loads now text_data s =
     (if text_data = ustr ''pong'' then s
      else case loads text_data of
             Some (PDict payload) \<Rightarrow>
               if dict_get payload (ustr ''type'') PNone = PStr (ustr ''session.update'') then
                 (let lang = dict_get payload (ustr ''target_language'') PNone;
                      s1 = s\<lparr>voice_var := dict_get payload (ustr ''voice'') PNone,
                              audio_enabled_var := dict_get payload (ustr ''audio_enabled'') PNone\<rparr>
                  in case client s1 of
                       None \<Rightarrow> s1
                     | Some c \<Rightarrow>
                         s1\<lparr>client :=
                              Some (snd (update_session now lang (voice_var s1) (audio_enabled_var s1) c))\<rparr>)
               else if dict_get payload (ustr ''type'') PNone = PStr (ustr ''format.update'') then
                 s\<lparr>line_breaks_enabled :=
                      truthy (dict_get payload (ustr ''line_breaks_enabled'') (PBool False))\<rparr>
               else s
           | _ \<Rightarrow> s)"

text \<open>
  A message of the browser, as the server gives it: binary data, text, or the
  disconnection. The result is the exception that the handling raises, if any, and the
  state. The first byte of binary data tells audio (0) from video (1).
\<close>

datatype ws_message = ReceiveBytes "nat list" | ReceiveText ustring | Disconnect

definition handle_message ::
  "(ustring \<Rightarrow> pyval option) \<Rightarrow> real \<Rightarrow> ws_message \<Rightarrow> endpoint \<Rightarrow> py_exception option \<times> endpoint" where
  "handle_message loads now message s =
     (case message of
        ReceiveBytes data \<Rightarrow>
          if data = [] then (None, s)
          else if hd data = 0 then
            (case client s of
               None \<Rightarrow> (Some none_attribute_error, s)
             | Some c \<Rightarrow>
                 (case send_audio_chunk now (tl data) c of
                    (e, c') \<Rightarrow> (e, s\<lparr>client := Some c'\<rparr>)))
          else if hd data = 1 then (None, s\<lparr>video_queue := video_queue s @ [Some (tl data)]\<rparr>)
          else (None, s)
      | ReceiveText text_data \<Rightarrow> (None, handle_text_frame loads now text_data s)
      | Disconnect \<Rightarrow> (None, s\<lparr>websocket_active := False\<rparr>))"

text \<open>
  One turn of the inner loop: what \<open>asyncio.wait_for(websocket.receive(), timeout=60)\<close>
  gives is a message, the expiry of the 60 seconds, which \<open>wait_for\<close> raises as a
  \<open>TimeoutError\<close>, or another exception. The \<open>else\<close> after the inner loop belongs to
  the \<open>while\<close>: it runs when the loop ends without \<open>break\<close>, not when an exception is
  raised, so that every exception of the turn reaches the handler of the outer loop.
\<close>

datatype receive_outcome = Received ws_message | TimedOut | Raised py_exception

definition receive_step ::
  "(ustring \<Rightarrow> pyval option) \<Rightarrow> real \<Rightarrow> real \<Rightarrow> receive_outcome \<Rightarrow> endpoint \<Rightarrow> py_error + endpoint" where
  "receive_step loads now later outcome s =
     (case outcome of
        Received message \<Rightarrow>
          (case handle_message loads now message s of
             (None, s') \<Rightarrow> Inr s'
           | (Some e, s') \<Rightarrow> handle_error later e s')
      | TimedOut \<Rightarrow> handle_error later timeout_error s
      | Raised e \<Rightarrow> handle_error later e s)"

text \<open>
  The loop \<open>while websocket_active\<close>, one awaited result at a time: the connection when
  there is no client, a message otherwise. Each event carries the two clock readings of
  its step; an event that is not the one the loop awaits is skipped. An exception that
  leaves the endpoint ends the run.
\<close>

datatype endpoint_event =
    Connect real real "py_exception + ws_conn"
  | Receive real real receive_outcome

definition endpoint_step ::
  "(ustring \<Rightarrow> pyval option) \<Rightarrow> endpoint_event \<Rightarrow> endpoint \<Rightarrow> py_error + endpoint" where
  "endpoint_step loads ev s =
     (if \<not> websocket_active s then Inr s
      else case ev of
             Connect now later outcome \<Rightarrow>
               (if client s = None then create_client_step now later outcome s else Inr s)
           | Receive now later outcome \<Rightarrow>
               (if client s = None then Inr s else receive_step loads now later outcome s))"

fun run_endpoint ::
  "(ustring \<Rightarrow> pyval option) \<Rightarrow> endpoint_event list \<Rightarrow> endpoint \<Rightarrow> py_error + endpoint" where
  "run_endpoint loads [] s = Inr s"
| "run_endpoint loads (ev # evs) s =
     (case endpoint_step loads ev s of
        Inl err \<Rightarrow> Inl err
      | Inr s' \<Rightarrow> run_endpoint loads evs s')"

text \<open>
  The start of \<open>websocket_endpoint\<close>, after the key has been read: the parameters of the
  request and the initial values of the locals.
\<close>

definition websocket_endpoint_start ::
  "ustring \<Rightarrow> pyval \<Rightarrow> pyval \<Rightarrow> pyval \<Rightarrow> bool \<Rightarrow> bool \<Rightarrow> bool \<Rightarrow> endpoint" where
  "websocket_endpoint_start key language voice_arg audio_arg mute_control to_osc line_breaks =
     \<lparr>api_key_var = key,
      target_language_var = language,
      voice_var = voice_arg,
      audio_enabled_var = audio_arg,
      osc_mute_control = mute_control,
      send_to_osc = to_osc,
      line_breaks_enabled = line_breaks,
      reconnect_manager = new_reconnect_manager,
      client = None,
      message_task = None,
      video_sender_task = None,
      websocket_active = True,
      video_queue = []\<rparr>"

text \<open>The frames that assign the session variables: the \<open>session.update\<close> frames.\<close>

fun is_session_update :: "(ustring \<Rightarrow> pyval option) \<Rightarrow> endpoint_event \<Rightarrow> bool" where
  "is_session_update loads (Receive now later (Received (ReceiveText text_data))) =
     (text_data \<noteq> ustr ''pong'' \<and>
      (case loads text_data of
         Some (PDict payload) \<Rightarrow>
           dict_get payload (ustr ''type'') PNone = PStr (ustr ''session.update'')
       | _ \<Rightarrow> False))"
| "is_session_update loads ev = False"

section \<open>Observations and example states\<close>

text \<open>What a client has sent upstream, and whether its connection is open.\<close>

definition sent_upstream :: "client \<Rightarrow> upstream_event list" where
  "sent_upstream c = (case ws c of None \<Rightarrow> [] | Some w \<Rightarrow> sent w)"

definition upstream_open :: "client \<Rightarrow> bool" where
  "upstream_open c = (case ws c of None \<Rightarrow> False | Some w \<Rightarrow> closed w = None)"

text \<open>The three variables that a client creation takes from the endpoint.\<close>

definition session_variables :: "endpoint \<Rightarrow> pyval \<times> pyval \<times> pyval" where
  "session_variables s = (target_language_var s, voice_var s, audio_enabled_var s)"

text \<open>The session of the client of an endpoint, when the run has not left the endpoint.\<close>

definition client_session :: "py_error + endpoint \<Rightarrow> (pyval \<times> pyval \<times> pyval) option" where
  "client_session r =
     (case r of
        Inl err \<Rightarrow> None
      | Inr s \<Rightarrow> map_option (\<lambda>c. (target_language c, voice c, audio_enabled c)) (client s))"

text \<open>
  A fresh upstream connection; a client that has just been connected with the default
  parameters; an upstream closure with the code 1011; an endpoint with the default
  parameters whose client has just been connected.
\<close>

definition open_connection :: ws_conn where
  "open_connection = \<lparr>sent = [], closed = None\<rparr>"

definition connected_client :: client where
  "connected_client =
     \<lparr>api_key = ustr ''key'',
      target_language = PStr (ustr ''en''),
      audio_enabled = PBool True,
      voice = PStr (ustr ''Cherry''),
      ws = Some \<lparr>sent = [SessionUpdate (event_id 0) [ustr ''text'', ustr ''audio'']
                            (Some (PStr (ustr ''Cherry''))) (PStr (ustr ''en''))],
                 closed = None\<rparr>,
      is_connected = True,
      is_processing_audio = True,
      osc_mute_control_enabled = True,
      send_to_osc_enabled = True,
      translation_start_time = None\<rparr>"

definition internal_error_closure :: py_exception where
  "internal_error_closure =
     \<lparr>exc_class = ConnectionClosedError, exc_code = Some 1011, exc_args = []\<rparr>"

definition connected_endpoint :: endpoint where
  "connected_endpoint =
     (websocket_endpoint_start (ustr ''key'') (PStr (ustr ''en'')) (PStr (ustr ''Cherry''))
        (PBool True) True True False)
     \<lparr>client := Some connected_client,
      message_task := Some Running,
      video_sender_task := Some Running\<rparr>"

text \<open>
  Two \<open>session.update\<close> payloads, one that gives the language only and one that gives
  the voice and the audio flag; the reconnection after an upstream closure with the code
  1011: the exception reaches the endpoint, then the new connection succeeds.
\<close>

definition language_update :: "(ustring \<times> pyval) list" where
  "language_update =
     [(ustr ''type'', PStr (ustr ''session.update'')),
      (ustr ''target_language'', PStr (ustr ''ja''))]"

definition voice_update :: "(ustring \<times> pyval) list" where
  "voice_update =
     [(ustr ''type'', PStr (ustr ''session.update'')),
      (ustr ''voice'', PStr (ustr ''Ethan'')),
      (ustr ''audio_enabled'', PBool True)]"

definition reconnection :: "endpoint_event list" where
  "reconnection = [Receive 2 3 (Raised internal_error_closure), Connect 4 5 (Inr open_connection)]"

section \<open>Properties of the reconnect state machine\<close>

lemmas reconnect_constants =
  MAX_RECONNECT_ATTEMPTS_def INITIAL_RECONNECT_DELAY_def MAX_RECONNECT_DELAY_def
  RECONNECT_BACKOFF_FACTOR_def

text \<open>
  Below 1024 attempts the delay is the capped power: while the attempt counter \<open>a\<close> is
  below 1024 and the error code is not 1011, the delay is \<open>min (1.0 * 2 ^ a) 30.0\<close>; in
  particular it is 1.0 at 0 attempts, 8.0 at 3 and 30.0 at 10. With the code 1011 the
  delay is 0.0 for every attempt counter.
\<close>

lemma get_reconnect_delay_backoff:
  "(reconnect_attempts m < 1024 \<and> c \<noteq> Some 1011 \<longrightarrow>
      get_reconnect_delay m c = Inr (min (1 * 2 ^ reconnect_attempts m) 30))
   \<and> get_reconnect_delay (m\<lparr>reconnect_attempts := 0\<rparr>) None = Inr 1
   \<and> get_reconnect_delay (m\<lparr>reconnect_attempts := 3\<rparr>) None = Inr 8
   \<and> get_reconnect_delay (m\<lparr>reconnect_attempts := 10\<rparr>) None = Inr 30
   \<and> get_reconnect_delay m (Some 1011) = Inr 0"
  by (simp add: get_reconnect_delay_def backoff_power_def reconnect_constants)

text \<open>
  \<open>increment_attempts\<close> has no bound of its own: \<open>n\<close> calls add \<open>n\<close> to the counter.
  The Supervisor, however, counts an attempt only after the classifier has answered
  retry, which it does below 5 attempts only, so that its counter stays at 5 or below.
\<close>

lemma increment_attempts_funpow:
  "reconnect_attempts ((increment_attempts now ^^ n) m) = reconnect_attempts m + n"
  by (induction n) (simp_all add: increment_attempts_def)

lemma increment_after_should_reconnect:
  "should_reconnect m c \<Longrightarrow> reconnect_attempts (increment_attempts now m) \<le> 5"
  by (simp add: should_reconnect_def increment_attempts_def MAX_RECONNECT_ATTEMPTS_def
      split: if_splits)


text \<open>
  Claim C5. The classifier answers retry exactly when the attempt counter is below 5 and
  the code is one of 1006, 1011, 1012, 1013, 1014, 1015; from 5 attempts on it answers
  give-up for every code.
\<close>

theorem should_reconnect_classification:
  "should_reconnect m c =
     (reconnect_attempts m < 5 \<and> c \<in> {Some 1006, Some 1011, Some 1012, Some 1013, Some 1014, Some 1015})
   \<and> (should_reconnect (m\<lparr>reconnect_attempts := 5 + k\<rparr>) c = False)"
  by (auto simp add: should_reconnect_def MAX_RECONNECT_ATTEMPTS_def)

section \<open>Properties of the truncation\<close>

lemma truncate_loop_length: "length (truncate_loop t m) \<le> m"
proof (induction t m rule: truncate_loop.induct)
  case (1 t m)
  show ?case
  proof (cases "m < length t")
    case False
    then show ?thesis by (subst truncate_loop.simps) simp
  next
    case True
    show ?thesis
    proof (cases "first_sentence_end t")
      case None
      with True show ?thesis by (subst truncate_loop.simps) simp
    next
      case (Some e)
      with True 1 show ?thesis by (subst truncate_loop.simps) simp
    qed
  qed
qed

lemma truncate_text_length: "length (truncate_text t m) \<le> m"
  by (simp add: truncate_text_def truncate_loop_length)

text \<open>
  Claim C2. For every string the truncation returns at most 144 characters, and
  truncating twice is the same as truncating once.
\<close>

theorem truncate_text_bounded_idempotent:
  "length (truncate_text t MAX_LENGTH) \<le> 144
   \<and> truncate_text (truncate_text t MAX_LENGTH) MAX_LENGTH = truncate_text t MAX_LENGTH"
proof
  show "length (truncate_text t MAX_LENGTH) \<le> 144"
    using truncate_text_length [of t MAX_LENGTH] by (simp add: MAX_LENGTH_def)
  show "truncate_text (truncate_text t MAX_LENGTH) MAX_LENGTH = truncate_text t MAX_LENGTH"
    using truncate_text_length [of t MAX_LENGTH] by (subst truncate_text_def) simp
qed

subsection \<open>The first sentence end\<close>

lemma str_find_Some:
  "str_find t p = Some i \<Longrightarrow> prefix p (drop i t) \<and> i \<le> length t \<and> (\<forall>j<i. \<not> prefix p (drop j t))"
proof (induction t arbitrary: i)
  case Nil
  then show ?case by (simp split: if_splits)
next
  case (Cons x xs)
  show ?case
  proof (cases "prefix p (x # xs)")
    case True
    with Cons.prems show ?thesis by simp
  next
    case False
    with Cons.prems obtain k where k: "str_find xs p = Some k" "i = Suc k"
      by auto
    from Cons.IH[OF k(1)] have ih: "prefix p (drop k xs)" "k \<le> length xs" "\<forall>j<k. \<not> prefix p (drop j xs)"
      by auto
    have "\<not> prefix p (drop j (x # xs))" if "j < i" for j
      using that False ih(3) k(2) by (cases j) auto
    with ih k show ?thesis by simp
  qed
qed

lemma str_find_None:
  "str_find t p = None \<Longrightarrow> j \<le> length t \<Longrightarrow> \<not> prefix p (drop j t)"
proof (induction t arbitrary: j)
  case Nil
  then show ?case by (simp split: if_splits)
next
  case (Cons x xs)
  then show ?case by (cases j) (auto split: if_splits)
qed

lemma str_find_occurs:
  assumes "prefix p (drop j t)" "j \<le> length t"
  shows "\<exists>i\<le>j. str_find t p = Some i"
proof (cases "str_find t p")
  case None
  with str_find_None[OF None assms(2)] assms(1) show ?thesis by simp
next
  case (Some i)
  from str_find_Some[OF Some] assms(1) have "\<not> j < i" by auto
  with Some show ?thesis by auto
qed

lemma step_simps:
  "str_find t p = None \<Longrightarrow> first_sentence_end_step t p acc = acc"
  "str_find t p = Some i \<Longrightarrow> first_sentence_end_step t p None = Some i"
  "str_find t p = Some i \<Longrightarrow> first_sentence_end_step t p (Some a) = Some (min i a)"
  by (auto simp: first_sentence_end_step_def min_def)

lemma fold_step_cases:
  "fold (first_sentence_end_step t) ps acc = Some e \<Longrightarrow>
     acc = Some e \<or> (\<exists>p\<in>set ps. str_find t p = Some e)"
proof (induction ps arbitrary: acc)
  case Nil
  then show ?case by simp
next
  case (Cons p ps)
  from Cons.prems have "fold (first_sentence_end_step t) ps (first_sentence_end_step t p acc) = Some e"
    by simp
  from Cons.IH[OF this] show ?case
    by (cases "str_find t p"; cases acc) (auto simp: step_simps min_def split: if_splits)
qed

lemma fold_step_le_acc:
  "\<exists>e. fold (first_sentence_end_step t) ps (Some a) = Some e \<and> e \<le> a"
proof (induction ps arbitrary: a)
  case Nil
  then show ?case by simp
next
  case (Cons p ps)
  show ?case
  proof (cases "str_find t p")
    case None
    then show ?thesis using Cons.IH[of a] by (simp add: step_simps)
  next
    case (Some i)
    then show ?thesis using Cons.IH[of "min i a"]
      by (auto simp add: step_simps)
  qed
qed

lemma fold_step_le:
  "p \<in> set ps \<Longrightarrow> str_find t p = Some i \<Longrightarrow>
     \<exists>e. fold (first_sentence_end_step t) ps acc = Some e \<and> e \<le> i"
proof (induction ps arbitrary: acc)
  case Nil
  then show ?case by simp
next
  case (Cons q ps)
  show ?case
  proof (cases "p = q")
    case True
    show ?thesis
    proof (cases acc)
      case None
      with True Cons.prems show ?thesis
        using fold_step_le_acc[of t ps i] by (simp add: step_simps)
    next
      case (Some a)
      with True Cons.prems show ?thesis
        using fold_step_le_acc[of t ps "min i a"]
        by (auto simp add: step_simps)
    qed
  next
    case False
    with Cons show ?thesis by simp
  qed
qed

lemma enders_nonempty: "p \<in> set SENTENCE_ENDERS \<Longrightarrow> p \<noteq> [] \<and> ender_char (hd p)"
  by (auto simp add: ender_char_def SENTENCE_ENDERS_def)


lemma prefix_single: "prefix [c] (drop j t) \<longleftrightarrow> j < length t \<and> t ! j = c"
proof (cases "j < length t")
  case True
  then have "drop j t = t ! j # drop (Suc j) t" by (simp add: Cons_nth_drop_Suc)
  with True show ?thesis by auto
next
  case False
  then show ?thesis by simp
qed

lemma first_sentence_end_Some:
  assumes "first_sentence_end t = Some e"
  shows "e < length t \<and> ender_char (t ! e) \<and> (\<forall>j<e. \<not> ender_char (t ! j))"
proof -
  from assms fold_step_cases[of t SENTENCE_ENDERS None e]
  obtain p where p: "p \<in> set SENTENCE_ENDERS" "str_find t p = Some e"
    by (auto simp: first_sentence_end_def)
  from enders_nonempty[OF p(1)] obtain c q where pc: "p = c # q" "ender_char c"
    by (cases p) auto
  from str_find_Some[OF p(2)] have "prefix (c # q) (drop e t)" using pc by simp
  then have "prefix [c] (drop e t)" by (cases "drop e t") auto
  then have e: "e < length t" "t ! e = c" by (auto simp: prefix_single)
  have "\<not> ender_char (t ! j)" if "j < e" for j
  proof
    assume en: "ender_char (t ! j)"
    from that e have "prefix [t ! j] (drop j t)" by (simp add: prefix_single)
    with str_find_occurs[of "[t ! j]" j t] that e
    obtain i where i: "i \<le> j" "str_find t [t ! j] = Some i" by auto
    from en have "[t ! j] \<in> set SENTENCE_ENDERS" by (simp add: ender_char_def)
    from fold_step_le[OF this i(2), of None] assms have "e \<le> i"
      by (simp add: first_sentence_end_def)
    with i that show False by simp
  qed
  with e pc show ?thesis by simp
qed

lemma first_sentence_end_None:
  assumes "first_sentence_end t = None"
  shows "\<forall>c\<in>set t. \<not> ender_char c"
proof
  fix c assume c: "c \<in> set t"
  show "\<not> ender_char c"
  proof
    assume en: "ender_char c"
    from c obtain j where j: "j < length t" "t ! j = c" by (auto simp: in_set_conv_nth)
    then have "prefix [c] (drop j t)" by (simp add: prefix_single)
    with str_find_occurs[of "[c]" j t] j obtain i where "str_find t [c] = Some i" by auto
    moreover from en have "[c] \<in> set SENTENCE_ENDERS" by (simp add: ender_char_def)
    ultimately show False using fold_step_le[of "[c]" SENTENCE_ENDERS t i None] assms
      by (simp add: first_sentence_end_def)
  qed
qed


subsection \<open>Trimming\<close>

lemma strip_nonempty: "strip s \<noteq> [] \<longleftrightarrow> nonempty_trimmed s"
proof -
  have "dropWhile is_space (rev s) = [] \<longleftrightarrow> (\<forall>c\<in>set s. is_space c)" by simp
  moreover have "strip s = [] \<longleftrightarrow> dropWhile is_space (rev s) = []"
  proof (cases "dropWhile is_space (rev s)")
    case Nil
    have "strip s = []" unfolding strip_def lstrip_def rstrip_def Nil by simp
    with Nil show ?thesis by (simp only:)
  next
    case (Cons y ys)
    with hd_dropWhile[of is_space "rev s"] have "\<not> is_space y" by simp
    with Cons show ?thesis by (auto simp add: strip_def lstrip_def rstrip_def)
  qed
  ultimately show ?thesis by (auto simp: nonempty_trimmed_def)
qed

subsection \<open>The sentences of a text\<close>





















subsection \<open>Truncation keeps the most recent sentence\<close>


lemma first_sentence_end_eq_Some:
  assumes "e < length t" "ender_char (t ! e)" "\<forall>j<e. \<not> ender_char (t ! j)"
  shows "first_sentence_end t = Some e"
proof (cases "first_sentence_end t")
  case None
  from first_sentence_end_None[OF None] assms(1,2) nth_mem[of e t] show ?thesis by auto
next
  case (Some e')
  from first_sentence_end_Some[OF Some] assms have "\<not> e' < e" "\<not> e < e'" by auto
  with Some show ?thesis by simp
qed

lemma ender_char_simps: "ender_char 46" "\<not> ender_char 98" "\<not> ender_char 65" "\<not> ender_char 32"
  "\<not> ender_char 72" "\<not> ender_char 105"
  by (simp_all add: ender_char_def SENTENCE_ENDERS_def)









text \<open>
  The white space after the final sentence counts: the final sentence of
  \<open>A.\<close>, a space, 143 letters \<open>X\<close>, a full stop and a space has 144 characters, but with
  the space after it the text left after the first cut has 145, and the loop cuts once
  more, after the final full stop.
\<close>

lemma truncate_text_trailing_space:
  "truncate_text (65 # 46 # 32 # replicate 143 88 @ [46, 32]) MAX_LENGTH = []"
proof -
  let ?s = "replicate 143 88 @ [46, 32 :: nat]"
  have f1: "first_sentence_end (65 # 46 # 32 # ?s) = Some 1"
    by (rule first_sentence_end_eq_Some) (simp_all add: ender_char_simps)
  have f2: "first_sentence_end ?s = Some 143"
    by (rule first_sentence_end_eq_Some)
       (simp_all add: ender_char_simps nth_append ender_char_def SENTENCE_ENDERS_def)
  have l1: "lstrip (32 # ?s) = ?s"
    by (simp add: lstrip_def is_space_def)
  have l2: "lstrip [32 :: nat] = []"
    by (simp add: lstrip_def is_space_def)
  have "truncate_loop [] 144 = []" by (subst truncate_loop.simps) simp
  then have "truncate_loop ?s 144 = []"
    by (subst truncate_loop.simps) (simp add: f2 l2)
  moreover have "truncate_loop (65 # 46 # 32 # ?s) 144 = truncate_loop ?s 144"
    by (subst truncate_loop.simps) (simp add: f1 l1)
  ultimately show ?thesis by (simp add: truncate_text_def MAX_LENGTH_def)
qed

section \<open>Properties of the confirmed/unconfirmed split\<close>

lemma occurrences_Nil: "occurrences [] p = (if p = [] then [0] else [])"
  by (simp add: occurrences_def)

lemma occurrences_Cons:
  "occurrences (x # xs) p = (if prefix p (x # xs) then [0] else []) @ map Suc (occurrences xs p)"
proof -
  have "[0..<length (x # xs) + 1] = 0 # map Suc [0..<length xs + 1]"
    by (simp add: upt_conv_Cons map_Suc_upt del: upt_Suc)
  then show ?thesis
    by (simp add: occurrences_def filter_map comp_def del: upt_Suc)
qed

lemma str_rfind_last_occurrence: "str_rfind t p = last_occurrence t p"
proof (induction t)
  case Nil
  then show ?case by (simp add: last_occurrence_def occurrences_Nil)
next
  case (Cons x xs)
  then show ?case
    by (cases "occurrences xs p = []")
       (auto simp add: last_occurrence_def occurrences_Cons last_map split: option.splits)
qed

lemma find_last_delim_valid: "find_last_delim t d = valid_last_occurrence t d"
  by (simp add: find_last_delim_def valid_last_occurrence_def str_rfind_last_occurrence
      valid_candidate_def strip_nonempty Let_def split: option.splits)

lemmas split_eval =
  split_confirmed_unconfirmed_def find_last_delim_def normalize_newlines_def
  THREE_DOTS_def CJK_ELLIPSIS_def strip_def lstrip_def rstrip_def is_space_def Let_def

text \<open>
  Claim C6, as the code has it. The split takes the last occurrence of the three dots; if
  they are absent, or their last occurrence is not a valid candidate, it takes the last
  occurrence of the CJK ellipsis; a candidate is valid only if the text before it and the
  text after it are both non-empty after trimming. The text \<open>A.B...C\<close> splits into
  \<open>A.B\<close>, the three dots and \<open>C\<close>; the texts \<open>no delimiter here\<close>, \<open>...leading\<close> and
  \<open>trailing...\<close> do not split.
\<close>

theorem split_confirmed_unconfirmed_last_valid:
  "split_confirmed_unconfirmed t = split_with_fallback t
   \<and> split_confirmed_unconfirmed (ustr ''A.B...C'') = Some (ustr ''A.B'', ustr ''...'', ustr ''C'')
   \<and> split_confirmed_unconfirmed (ustr ''no delimiter here'') = None
   \<and> split_confirmed_unconfirmed (ustr ''...leading'') = None
   \<and> split_confirmed_unconfirmed (ustr ''trailing...'') = None"
proof (intro conjI)
  show "split_confirmed_unconfirmed t = split_with_fallback t"
    by (simp add: split_confirmed_unconfirmed_def split_with_fallback_def find_last_delim_valid
        split_at_def Let_def split: option.splits)
  show "split_confirmed_unconfirmed (ustr ''A.B...C'') = Some (ustr ''A.B'', ustr ''...'', ustr ''C'')"
    by (simp add: split_eval)
  show "split_confirmed_unconfirmed (ustr ''no delimiter here'') = None"
    by (simp add: split_eval)
  show "split_confirmed_unconfirmed (ustr ''...leading'') = None"
    by (simp add: split_eval)
  show "split_confirmed_unconfirmed (ustr ''trailing...'') = None"
    by (simp add: split_eval)
qed

text \<open>
  The claim as it is written fails where the three dots are present but not valid: in
  the text of \<open>a\<close>, two ellipsis characters, \<open>b\<close> and three dots, the three dots occur
  (at position 4, with nothing after them), and the code still splits, at the CJK
  ellipsis, where the specified search yields no split.
\<close>

theorem split_confirmed_unconfirmed_counterexample:
  "str_rfind (normalize_newlines [0x61, 0x2026, 0x2026, 0x62, 0x2E, 0x2E, 0x2E]) THREE_DOTS = Some 4
   \<and> split_confirmed_unconfirmed [0x61, 0x2026, 0x2026, 0x62, 0x2E, 0x2E, 0x2E]
       = Some ([0x61], CJK_ELLIPSIS, [0x62, 0x2E, 0x2E, 0x2E])
   \<and> split_as_specified [0x61, 0x2026, 0x2026, 0x62, 0x2E, 0x2E, 0x2E] = None
   \<and> split_confirmed_unconfirmed [0x61, 0x2026, 0x2026, 0x62, 0x2E, 0x2E, 0x2E]
       \<noteq> split_as_specified [0x61, 0x2026, 0x2026, 0x62, 0x2E, 0x2E, 0x2E]"
  by (simp add: split_eval split_as_specified_def last_occurrence_def occurrences_def
      valid_candidate_def nonempty_trimmed_def)

section \<open>Properties of the chatbox formatting\<close>

subsection \<open>Replacement and white space\<close>

lemma in_dropWhile_keep: "x \<in> set s \<Longrightarrow> \<not> P x \<Longrightarrow> x \<in> set (dropWhile P s)"
  by (induction s) auto

lemma str_replace_set: "set (str_replace s old new) \<subseteq> set s \<union> set new"
proof (induction s old new rule: str_replace.induct)
  case (1 old new)
  then show ?case by auto
next
  case (2 x xs old new)
  show ?case
  proof (cases "old = []")
    case True
    with 2 show ?thesis by auto
  next
    case False
    show ?thesis
    proof (cases "prefix old (x # xs)")
      case True
      have "set (drop (length old) (x # xs)) \<subseteq> set (x # xs)" by (rule set_drop_subset)
      with 2(2)[OF False True] False True show ?thesis by auto
    next
      case F: False
      with 2(3)[OF False F] False show ?thesis by auto
    qed
  qed
qed

lemma str_replace_keep:
  "y \<in> set s \<Longrightarrow> y \<notin> set old \<Longrightarrow> y \<in> set (str_replace s old new)"
proof (induction s old new rule: str_replace.induct)
  case (1 old new)
  then show ?case by simp
next
  case (2 x xs old new)
  show ?case
  proof (cases "old = []")
    case True
    with 2 show ?thesis by auto
  next
    case False
    show ?thesis
    proof (cases "prefix old (x # xs)")
      case True
      then have "x # xs = old @ drop (length old) (x # xs)"
        by (metis append_eq_conv_conj prefix_def)
      with "2.prems" have "y \<in> set (drop (length old) (x # xs))"
        by (metis Un_iff set_append)
      with 2(2)[OF False True] "2.prems" False True show ?thesis by simp
    next
      case F: False
      with 2(3)[OF False F] "2.prems" False show ?thesis by auto
    qed
  qed
qed

lemma prefix_before_separator:
  assumes "n \<notin> set old"
  shows "prefix old (a @ n # b) \<longleftrightarrow> prefix old a"
proof
  assume "prefix old (a @ n # b)"
  then have "prefix old a \<or> (\<exists>us. old = a @ us \<and> prefix us (n # b))"
    by (simp add: prefix_append)
  then show "prefix old a"
  proof
    assume "prefix old a" then show ?thesis .
  next
    assume "\<exists>us. old = a @ us \<and> prefix us (n # b)"
    then obtain us where us: "old = a @ us" "prefix us (n # b)" by blast
    show ?thesis
    proof (cases us)
      case Nil
      with us show ?thesis by simp
    next
      case (Cons u us')
      with us have "u = n" by simp
      with Cons us assms show ?thesis by simp
    qed
  qed
next
  assume "prefix old a"
  then show "prefix old (a @ n # b)" by (simp add: prefix_prefix)
qed

lemma str_replace_separator:
  "n \<notin> set old \<Longrightarrow> old \<noteq> [] \<Longrightarrow>
     str_replace (a @ n # b) old new = str_replace a old new @ n # str_replace b old new"
proof (induction a old new rule: str_replace.induct)
  case (1 old new)
  then obtain y ys where "old = y # ys" by (cases old) auto
  with 1 show ?case by auto
next
  case (2 x xs old new)
  have pre: "prefix old ((x # xs) @ n # b) \<longleftrightarrow> prefix old (x # xs)"
    using "2.prems"(1) by (rule prefix_before_separator)
  show ?case
  proof (cases "prefix old (x # xs)")
    case True
    then have len: "length old - length (x # xs) = 0"
      using prefix_length_le[of old "x # xs"] by simp
    have "drop (length old) ((x # xs) @ n # b)
        = drop (length old) (x # xs) @ drop (length old - length (x # xs)) (n # b)"
      by (rule drop_append)
    then have d: "drop (length old) ((x # xs) @ n # b) = drop (length old) (x # xs) @ n # b"
      unfolding len by simp
    from pre True have p: "prefix old ((x # xs) @ n # b)" by simp
    have "str_replace ((x # xs) @ n # b) old new
        = new @ str_replace (drop (length old) ((x # xs) @ n # b)) old new"
      using p "2.prems"(2) by (simp del: drop_Suc_Cons)
    also have "\<dots> = new @ str_replace (drop (length old) (x # xs) @ n # b) old new"
      unfolding d ..
    also have "\<dots> = new @ str_replace (drop (length old) (x # xs)) old new
                        @ n # str_replace b old new"
      using 2(2)[OF "2.prems"(2) True "2.prems"] by simp
    also have "\<dots> = str_replace (x # xs) old new @ n # str_replace b old new"
      using True "2.prems"(2) by (simp del: drop_Suc_Cons)
    finally show ?thesis .
  next
    case False
    with 2(3)[OF "2.prems"(2) False "2.prems"] pre "2.prems"(2) show ?thesis
      by simp
  qed
qed

lemma collapse_whitespace_spaces:
  "c \<in> set (collapse_whitespace s) \<Longrightarrow> is_space c \<Longrightarrow> c = 0x20"
  by (induction s rule: collapse_whitespace.induct) (auto split: if_splits)

lemma collapse_whitespace_keep:
  "x \<in> set s \<Longrightarrow> \<not> is_space x \<Longrightarrow> x \<in> set (collapse_whitespace s)"
  by (induction s rule: collapse_whitespace.induct) (auto split: if_splits intro: in_dropWhile_keep)

lemma newline_is_space: "is_space 0x0A"
  by (simp add: is_space_def)

lemma collapse_whitespace_no_newline: "0x0A \<notin> set (collapse_whitespace s)"
  using collapse_whitespace_spaces[of "0x0A" s] newline_is_space by auto

lemma strip_subset: "set (strip s) \<subseteq> set s"
  by (auto simp: strip_def lstrip_def rstrip_def dest!: set_dropWhileD)

lemma rstrip_keep: "x \<in> set s \<Longrightarrow> \<not> is_space x \<Longrightarrow> x \<in> set (rstrip s)"
  by (simp add: rstrip_def in_dropWhile_keep)

lemma strip_keep: "x \<in> set s \<Longrightarrow> \<not> is_space x \<Longrightarrow> x \<in> set (strip s)"
  by (simp add: strip_def lstrip_def rstrip_keep in_dropWhile_keep)

lemma nonempty_trimmed_strip: "nonempty_trimmed s \<Longrightarrow> nonempty_trimmed (strip s)"
  by (auto simp: nonempty_trimmed_def intro: strip_keep)

lemma nonempty_trimmed_rstrip: "nonempty_trimmed s \<Longrightarrow> nonempty_trimmed (rstrip s)"
  by (auto simp: nonempty_trimmed_def intro: rstrip_keep)

lemma nonempty_trimmed_nonempty: "nonempty_trimmed s \<Longrightarrow> s \<noteq> []"
  by (auto simp: nonempty_trimmed_def)

lemma nonempty_trimmed_collapse: "nonempty_trimmed s \<Longrightarrow> nonempty_trimmed (collapse_whitespace s)"
  by (auto simp: nonempty_trimmed_def intro: collapse_whitespace_keep)

lemma break_after_enders_keep:
  "x \<in> set s \<Longrightarrow> \<not> is_space x \<Longrightarrow> x \<in> set (break_after_enders s)"
  by (induction s rule: break_after_enders.induct) (auto split: if_splits intro: in_dropWhile_keep)

lemma break_after_full_stops_keep:
  "x \<in> set s \<Longrightarrow> \<not> is_space x \<Longrightarrow> x \<in> set (break_after_full_stops prev s)"
proof (induction prev s rule: break_after_full_stops.induct)
  case (1 prev)
  then show ?case by simp
next
  case (2 prev c cs)
  let ?cond = "c = 0x2E \<and> prev \<noteq> Some 0x2E
         \<and> (cs = [] \<or> is_space (hd cs) \<or> hd cs \<in> set CLOSERS)
         \<and> (cs = [] \<or> hd cs \<noteq> 0x0A)"
  show ?case
  proof (cases ?cond)
    case True
    show ?thesis
    proof (cases "x = c")
      case xc: True
      with True show ?thesis by simp
    next
      case False
      with "2.prems" have "x \<in> set cs" by simp
      with "2.prems" have "x \<in> set (dropWhile is_space cs)" by (simp add: in_dropWhile_keep)
      from "2.IH"(1)[OF True this "2.prems"(2)] True show ?thesis by simp
    qed
  next
    case False
    show ?thesis
    proof (cases "x = c")
      case True
      with False show ?thesis by auto
    next
      case xc: False
      with "2.prems" have "x \<in> set cs" by simp
      from "2.IH"(2)[OF False this "2.prems"(2)] False show ?thesis by auto
    qed
  qed
qed

lemma normalize_newlines_keep:
  "x \<in> set s \<Longrightarrow> \<not> is_space x \<Longrightarrow> x \<in> set (normalize_newlines s)"
proof -
  assume x: "x \<in> set s" "\<not> is_space x"
  have "is_space 0x0D" "is_space 0x0A" by (simp_all add: is_space_def)
  with x have "x \<notin> set [0x0D, 0x0A]" "x \<notin> set [0x0D]" by auto
  with x show ?thesis unfolding normalize_newlines_def
    by (intro str_replace_keep)
qed

lemma nonempty_trimmed_insert_newlines:
  assumes "nonempty_trimmed s"
  shows "nonempty_trimmed (insert_newlines_after_sentence_enders s)"
proof -
  from assms obtain x where x: "x \<in> set s" "\<not> is_space x" by (auto simp: nonempty_trimmed_def)
  then have "x \<in> set (break_after_full_stops None (break_after_enders (normalize_newlines s)))"
    by (intro break_after_full_stops_keep break_after_enders_keep normalize_newlines_keep)
  with x show ?thesis
    by (auto simp: nonempty_trimmed_def insert_newlines_after_sentence_enders_def)
qed

lemma str_of_nat_digits: "c \<in> set (str_of_nat n) \<Longrightarrow> 0x30 \<le> c"
proof (induction n rule: str_of_nat.induct)
  case (1 n)
  then show ?case by (subst (asm) str_of_nat.simps) (auto split: if_splits)
qed

lemma placeholder_no_newline: "0x0A \<notin> set (bracketed_placeholder idx)"
proof
  assume "0x0A \<in> set (bracketed_placeholder idx)"
  then have "(0x0A :: nat) \<in> set (str_of_nat idx)"
    by (auto simp: bracketed_placeholder_def)
  from str_of_nat_digits[OF this] show False by simp
qed

lemma placeholder_nonempty: "bracketed_placeholder idx \<noteq> []"
  by (simp add: bracketed_placeholder_def)

lemma protect_brackets_snd:
  "snd (protect_brackets (c # cs) segs) =
     (if c = 0x5B then
        (case str_find cs [0x5D] of
           Some k \<Rightarrow> snd (protect_brackets (drop (k + 1) cs)
                        (segs @ [strip (collapse_whitespace (c # take (k + 1) cs))]))
         | None \<Rightarrow> snd (protect_brackets cs segs))
      else snd (protect_brackets cs segs))"
  by (simp add: case_prod_beta Let_def split: option.splits)

lemma protect_brackets_segments:
  "\<forall>x\<in>set segs. 0x0A \<notin> set x \<Longrightarrow> \<forall>x\<in>set (snd (protect_brackets t segs)). 0x0A \<notin> set x"
proof (induction t segs rule: protect_brackets.induct)
  case (1 segs)
  then show ?case by simp
next
  case (2 c cs segs)
  show ?case
  proof (cases "c = 0x5B")
    case False
    from "2.IH" False "2.prems" have "\<forall>x\<in>set (snd (protect_brackets cs segs)). 0x0A \<notin> set x"
      by blast
    with False show ?thesis
      by (simp add: protect_brackets_snd del: protect_brackets.simps)
  next
    case True
    show ?thesis
    proof (cases "str_find cs [0x5D]")
      case None
      from "2.IH" True None "2.prems"
      have "\<forall>x\<in>set (snd (protect_brackets cs segs)). 0x0A \<notin> set x"
        by blast
      with True None show ?thesis
        by (simp add: protect_brackets_snd del: protect_brackets.simps)
    next
      case (Some k)
      let ?content = "strip (collapse_whitespace (c # take (k + 1) cs))"
      have "0x0A \<notin> set ?content"
        using strip_subset[of "collapse_whitespace (c # take (k + 1) cs)"]
          collapse_whitespace_no_newline[of "c # take (k + 1) cs"] by auto
      with "2.prems" have "\<forall>x\<in>set (segs @ [?content]). 0x0A \<notin> set x" by auto
      from "2.IH"(2)[OF True Some refl this] True Some show ?thesis
        by (simp add: protect_brackets_snd del: protect_brackets.simps)
    qed
  qed
qed

lemma fold_replace_separator:
  "\<forall>p\<in>set ps. 0x0A \<notin> set (snd p) \<Longrightarrow>
   fold (\<lambda>(idx, content) f. str_replace f (bracketed_placeholder idx) content) ps (a @ 0x0A # b)
     = fold (\<lambda>(idx, content) f. str_replace f (bracketed_placeholder idx) content) ps a
       @ 0x0A # fold (\<lambda>(idx, content) f. str_replace f (bracketed_placeholder idx) content) ps b"
proof (induction ps arbitrary: a b)
  case Nil
  then show ?case by simp
next
  case (Cons p ps)
  obtain idx content where p: "p = (idx, content)" by (cases p)
  have "str_replace (a @ 0x0A # b) (bracketed_placeholder idx) content
      = str_replace a (bracketed_placeholder idx) content
        @ 0x0A # str_replace b (bracketed_placeholder idx) content"
    by (rule str_replace_separator[OF placeholder_no_newline placeholder_nonempty])
  with Cons p show ?case by simp
qed

lemma fold_replace_no_newline:
  "\<forall>p\<in>set ps. 0x0A \<notin> set (snd p) \<Longrightarrow> 0x0A \<notin> set b \<Longrightarrow>
   0x0A \<notin> set (fold (\<lambda>(idx, content) f. str_replace f (bracketed_placeholder idx) content) ps b)"
proof (induction ps arbitrary: b)
  case Nil
  then show ?case by simp
next
  case (Cons p ps)
  obtain idx content where p: "p = (idx, content)" by (cases p)
  with Cons.prems have "0x0A \<notin> set (str_replace b (bracketed_placeholder idx) content)"
    using str_replace_set[of b "bracketed_placeholder idx" content] by auto
  with Cons p show ?case by simp
qed

lemma enumerate_snd: "p \<in> set (enumerate n xs) \<Longrightarrow> snd p \<in> set xs"
  by (cases p) (auto simp: in_set_enumerate_eq)

lemma restore_brackets_separator:
  assumes "\<forall>x\<in>set segs. 0x0A \<notin> set x"
  shows "restore_brackets segs (a @ 0x0A # b) = restore_brackets segs a @ 0x0A # restore_brackets segs b"
  unfolding restore_brackets_def
  by (rule fold_replace_separator) (use assms enumerate_snd in blast)

lemma restore_brackets_no_newline:
  assumes "\<forall>x\<in>set segs. 0x0A \<notin> set x" "0x0A \<notin> set b"
  shows "0x0A \<notin> set (restore_brackets segs b)"
  unfolding restore_brackets_def
  by (rule fold_replace_no_newline) (use assms enumerate_snd in blast)+

lemma split_parts_nonempty:
  assumes "split_confirmed_unconfirmed t = Some (c, d, u)"
  shows "nonempty_trimmed c \<and> nonempty_trimmed u"
proof -
  from assms obtain i n where
    v: "find_last_delim n d = Some i" and c: "c = rstrip (take i n)"
    and u: "u = strip (drop (i + length d) n)"
    by (auto simp: split_confirmed_unconfirmed_def Let_def split: if_splits option.splits)
  from v have "strip (take i n) \<noteq> []" "strip (drop (i + length d) n) \<noteq> []"
    by (auto simp: find_last_delim_def Let_def split: option.splits if_splits)
  then have "nonempty_trimmed (take i n)" "nonempty_trimmed (drop (i + length d) n)"
    by (simp_all add: strip_nonempty)
  with c u show ?thesis by (simp add: nonempty_trimmed_rstrip nonempty_trimmed_strip)
qed

subsection \<open>The unconfirmed part is one line\<close>

text \<open>
  Claim C8. When the split that \<open>_format_text_for_chatbox\<close> makes (of the text with its
  bracketed spans protected) succeeds with the parts \<open>c\<close>, \<open>d\<close>, \<open>u\<close>, the rendered text
  is the formatted confirmed part with the delimiter, one newline, and the unconfirmed
  part, white space collapsed and the bracketed spans put back; that last part is not
  empty before the spans are put back and holds no newline: it is a single line, the last
  one of the rendered text.
\<close>

theorem format_unconfirmed_single_line:
  assumes "split_confirmed_unconfirmed (fst (protect_brackets (normalize_newlines t) [])) = Some (c, d, u)"
  shows "format_text_for_chatbox t =
           restore_brackets (snd (protect_brackets (normalize_newlines t) []))
             (rstrip (insert_newlines_after_sentence_enders c) @ d)
           @ 0x0A # restore_brackets (snd (protect_brackets (normalize_newlines t) []))
                      (strip (collapse_whitespace u))
         \<and> 0x0A \<notin> set (restore_brackets (snd (protect_brackets (normalize_newlines t) []))
                          (strip (collapse_whitespace u)))
         \<and> strip (collapse_whitespace u) \<noteq> []"
proof -
  let ?segs = "snd (protect_brackets (normalize_newlines t) [])"
  let ?cf = "rstrip (insert_newlines_after_sentence_enders c)"
  let ?ul = "strip (collapse_whitespace u)"
  have segs: "\<forall>x\<in>set ?segs. 0x0A \<notin> set x"
    by (rule protect_brackets_segments) simp
  from split_parts_nonempty[OF assms] have ne: "nonempty_trimmed c" "nonempty_trimmed u" by auto
  have cf: "?cf \<noteq> []"
    using ne(1) by (intro nonempty_trimmed_nonempty nonempty_trimmed_rstrip nonempty_trimmed_insert_newlines)
  have ul: "?ul \<noteq> []"
    using ne(2) by (intro nonempty_trimmed_nonempty nonempty_trimmed_strip nonempty_trimmed_collapse)
  have nl: "0x0A \<notin> set ?ul"
    using strip_subset[of "collapse_whitespace u"] collapse_whitespace_no_newline[of u] by auto
  have t: "t \<noteq> []"
  proof
    assume "t = []"
    with assms show False
      by (simp add: normalize_newlines_def split_confirmed_unconfirmed_def)
  qed
  have "format_text_for_chatbox t = restore_brackets ?segs (?cf @ d @ [0x0A] @ ?ul)"
    using assms t cf ul
    by (simp add: format_text_for_chatbox_def Let_def case_prod_beta)
  also have "\<dots> = restore_brackets ?segs ((?cf @ d) @ 0x0A # ?ul)" by simp
  also have "\<dots> = restore_brackets ?segs (?cf @ d) @ 0x0A # restore_brackets ?segs ?ul"
    by (rule restore_brackets_separator[OF segs])
  finally have "format_text_for_chatbox t
      = restore_brackets ?segs (?cf @ d) @ 0x0A # restore_brackets ?segs ?ul" .
  moreover have "0x0A \<notin> set (restore_brackets ?segs ?ul)"
    by (rule restore_brackets_no_newline[OF segs nl])
  ultimately show ?thesis using ul by blast
qed

lemma protect_brackets_example:
  "protect_brackets (normalize_newlines (ustr ''Hi. A...b  c'')) [] = (ustr ''Hi. A...b  c'', [])"
  by (simp add: normalize_newlines_def)

lemma split_confirmed_unconfirmed_example:
  "split_confirmed_unconfirmed (ustr ''Hi. A...b  c'')
     = Some (ustr ''Hi. A'', ustr ''...'', ustr ''b  c'')"
  by (simp add: split_eval)

lemma unconfirmed_example:
  "strip (collapse_whitespace (ustr ''b  c'')) = ustr ''b c''"
  by (simp add: strip_def lstrip_def rstrip_def is_space_def)

lemma confirmed_example:
  "rstrip (insert_newlines_after_sentence_enders (ustr ''Hi. A'')) = ustr ''Hi.'' @ 0x0A # ustr ''A''"
  by (simp add: insert_newlines_after_sentence_enders_def
      normalize_newlines_def BREAKING_ENDERS_def CLOSERS_def rstrip_def is_space_def)

theorem format_unconfirmed_single_line_witness:
  "split_confirmed_unconfirmed (fst (protect_brackets (normalize_newlines (ustr ''Hi. A...b  c'')) []))
     = Some (ustr ''Hi. A'', ustr ''...'', ustr ''b  c'')
   \<and> format_text_for_chatbox (ustr ''Hi. A...b  c'')
       = ustr ''Hi.'' @ 0x0A # ustr ''A...'' @ 0x0A # ustr ''b c''
   \<and> 0x0A \<notin> set (ustr ''b c'')"
proof -
  have h: "split_confirmed_unconfirmed (fst (protect_brackets (normalize_newlines (ustr ''Hi. A...b  c'')) []))
     = Some (ustr ''Hi. A'', ustr ''...'', ustr ''b  c'')"
    by (simp only: protect_brackets_example fst_conv split_confirmed_unconfirmed_example)
  from format_unconfirmed_single_line[OF h] h show ?thesis
    by (simp only: protect_brackets_example snd_conv unconfirmed_example confirmed_example)
       (simp add: restore_brackets_def)
qed

section \<open>Properties of the mute bridge\<close>

lemma connected_client_created:
  "create_and_connect_client 0 (Inr open_connection) (ustr ''key'') (PStr (ustr ''en''))
     (PStr (ustr ''Cherry'')) (PBool True) True True = Inr connected_client"
  by (simp add: create_and_connect_client_def new_client_def connect_def configure_session_def
      ws_send_def session_config_def open_connection_def connected_client_def)

lemma connected_endpoint_reached:
  "run_endpoint loads [Connect 0 0 (Inr open_connection)]
     (websocket_endpoint_start (ustr ''key'') (PStr (ustr ''en'')) (PStr (ustr ''Cherry''))
        (PBool True) True True False) = Inr connected_endpoint"
  by (simp add: endpoint_step_def create_client_step_def create_and_connect_client_def
      new_client_def connect_def configure_session_def ws_send_def session_config_def
      open_connection_def connected_client_def
      websocket_endpoint_start_def connected_endpoint_def reset_def new_reconnect_manager_def)

lemma silence_data_3: "silence_data 3 = replicate 96000 0"
  by (simp add: silence_data_def input_rate_def int_of_float_def)

lemma send_silence_connected:
  "is_connected (send_silence now d c) = is_connected c"
  "is_processing_audio (send_silence now d c) = is_processing_audio c"
  "osc_mute_control_enabled (send_silence now d c) = osc_mute_control_enabled c"
  by (simp_all add: send_silence_def ws_send_def split: option.splits sum.splits)

lemma sent_upstream_send_silence:
  "sent_upstream (send_silence now 3 c) =
     sent_upstream c @
       (if is_connected c \<and> upstream_open c
        then [InputAudioBufferAppend (event_id now) (replicate 96000 0)] else [])"
  by (simp add: send_silence_def sent_upstream_def upstream_open_def ws_send_def silence_data_3
      split: option.splits)

lemma paused_observations:
  "sent_upstream (c\<lparr>is_processing_audio := b, translation_start_time := t\<rparr>) = sent_upstream c"
  "upstream_open (c\<lparr>is_processing_audio := b, translation_start_time := t\<rparr>) = upstream_open c"
  by (simp_all add: sent_upstream_def upstream_open_def)

lemma pause_twice:
  "pause_audio_processing start2 now2 (pause_audio_processing start1 now1 c)
     = pause_audio_processing start1 now1 c"
  by (simp add: pause_audio_processing_def send_silence_connected)

text \<open>
  Claim C9, as the code has it. Of two consecutive \<open>mute=true\<close> signals the second
  changes nothing. The first sends the block of 3 seconds of silence (96000 zero bytes)
  exactly when the mute control is enabled, the client is forwarding audio and is
  connected, and its upstream connection is open; otherwise nothing is sent. A
  \<open>mute=false\<close> signal to a client that is forwarding audio, as it is when no
  \<open>mute=true\<close> came before, leaves the client as it is.
\<close>

theorem mute_signals_send_silence_at_most_once:
  "handle_mute_change start2 now2 True (handle_mute_change start1 now1 True c)
     = handle_mute_change start1 now1 True c
   \<and> sent_upstream (handle_mute_change start1 now1 True c) =
       sent_upstream c @
         (if osc_mute_control_enabled c \<and> is_processing_audio c \<and> is_connected c \<and> upstream_open c
          then [InputAudioBufferAppend (event_id now1) (replicate 96000 0)] else [])
   \<and> (is_processing_audio c \<longrightarrow> handle_mute_change start now False c = c)"
proof (intro conjI impI)
  show "handle_mute_change start2 now2 True (handle_mute_change start1 now1 True c)
     = handle_mute_change start1 now1 True c"
    by (simp add: handle_mute_change_def pause_twice)
  show "sent_upstream (handle_mute_change start1 now1 True c) =
       sent_upstream c @
         (if osc_mute_control_enabled c \<and> is_processing_audio c \<and> is_connected c \<and> upstream_open c
          then [InputAudioBufferAppend (event_id now1) (replicate 96000 0)] else [])"
    by (simp add: handle_mute_change_def pause_audio_processing_def sent_upstream_send_silence
        paused_observations)
  assume "is_processing_audio c"
  then show "handle_mute_change start now False c = c"
    by (simp add: handle_mute_change_def resume_audio_processing_def)
qed

theorem mute_signals_send_silence_at_most_once_witness:
  "is_processing_audio connected_client
   \<and> handle_mute_change 5 6 False connected_client = connected_client
   \<and> sent_upstream (handle_mute_change 3 4 True (handle_mute_change 1 2 True connected_client))
       = sent_upstream connected_client @ [InputAudioBufferAppend (event_id 2) (replicate 96000 0)]"
  using mute_signals_send_silence_at_most_once [of 3 4 1 2 connected_client 5 6]
  by (simp add: connected_client_def upstream_open_def)

text \<open>
  The claim as it is written, the block sent exactly once, fails for a client that is not
  connected: the guard of \<open>_send_silence\<close> returns before anything is sent. The closed
  client is the one the reconnection has closed, which the mute callback still serves
  until the next client is created.
\<close>

theorem mute_signals_disconnected_counterexample:
  "osc_mute_control_enabled (close connected_client)
   \<and> is_processing_audio (close connected_client)
   \<and> sent_upstream (handle_mute_change 3 4 True (handle_mute_change 1 2 True (close connected_client)))
       = sent_upstream (close connected_client)
   \<and> InputAudioBufferAppend (event_id 2) (replicate 96000 0)
       \<notin> set (sent_upstream (handle_mute_change 3 4 True (handle_mute_change 1 2 True (close connected_client))))"
  by (simp add: handle_mute_change_def pause_audio_processing_def send_silence_def close_def
      connected_client_def sent_upstream_def ws_close_def)

section \<open>Properties of the connection supervisor\<close>

lemma timeout_not_retryable:
  "error_code_of timeout_error = None" "\<not> should_reconnect m None"
  by (simp_all add: error_code_of_def timeout_error_def should_reconnect_def)

text \<open>
  Claim C1. The claim is that the expiry of the receive timeout is no error: the loop
  waits again, the reconnect state machine is not consulted and the session goes on. In
  the code the expiry is the exception \<open>TimeoutError\<close> of \<open>wait_for\<close>; it reaches the
  handler of the outer loop, which asks the classifier with the code \<open>None\<close>, gets
  give-up, and ends the session, in every state of the endpoint.
\<close>

theorem receive_timeout_ends_session:
  "receive_step loads now later TimedOut s = Inr (s\<lparr>websocket_active := False\<rparr>)
   \<and> error_code_of timeout_error = None
   \<and> \<not> should_reconnect (reconnect_manager s) (error_code_of timeout_error)"
  by (simp add: receive_step_def handle_error_def timeout_not_retryable)

subsection \<open>The session variables\<close>

text \<open>Only a \<open>session.update\<close> frame assigns the session variables.\<close>

lemma handle_error_variables:
  "handle_error now e s = Inr s' \<Longrightarrow> session_variables s' = session_variables s"
  by (auto simp add: handle_error_def session_variables_def Let_def split: if_splits sum.splits)

lemma create_client_step_variables:
  "create_client_step now later outcome s = Inr s' \<Longrightarrow> session_variables s' = session_variables s"
  by (auto simp add: create_client_step_def session_variables_def
      dest: handle_error_variables split: sum.splits)

lemma handle_text_frame_variables:
  "\<not> is_session_update loads (Receive now later (Received (ReceiveText text_data))) \<Longrightarrow>
     session_variables (handle_text_frame loads now text_data s) = session_variables s"
  by (auto simp add: handle_text_frame_def session_variables_def split: option.splits pyval.splits)

lemma handle_message_variables:
  "\<not> is_session_update loads (Receive now later (Received message)) \<Longrightarrow>
     session_variables (snd (handle_message loads now message s)) = session_variables s"
proof (cases message)
  case (ReceiveBytes data)
  then show ?thesis
    by (auto simp add: handle_message_def session_variables_def split: option.splits prod.splits)
next
  case (ReceiveText text_data)
  assume "\<not> is_session_update loads (Receive now later (Received message))"
  with ReceiveText show ?thesis
    using handle_text_frame_variables[of loads now later text_data s]
    by (simp add: handle_message_def)
next
  case Disconnect
  then show ?thesis by (simp add: handle_message_def session_variables_def)
qed

lemma receive_step_variables:
  assumes "\<not> is_session_update loads (Receive now later outcome)"
    and "receive_step loads now later outcome s = Inr s'"
  shows "session_variables s' = session_variables s"
proof (cases outcome)
  case (Received message)
  obtain e s1 where h: "handle_message loads now message s = (e, s1)" by (cases "handle_message loads now message s")
  from assms(1) Received have "session_variables (snd (handle_message loads now message s)) = session_variables s"
    by (intro handle_message_variables) simp
  with h have v: "session_variables s1 = session_variables s" by simp
  show ?thesis
  proof (cases e)
    case None
    with assms(2) Received h v show ?thesis by (simp add: receive_step_def)
  next
    case (Some x)
    with assms(2) Received h have "handle_error later x s1 = Inr s'" by (simp add: receive_step_def)
    from handle_error_variables[OF this] v show ?thesis by simp
  qed
next
  case TimedOut
  with assms(2) show ?thesis by (auto simp add: receive_step_def dest: handle_error_variables)
next
  case (Raised e)
  with assms(2) show ?thesis by (auto simp add: receive_step_def dest: handle_error_variables)
qed

lemma endpoint_step_variables:
  assumes "\<not> is_session_update loads ev" and "endpoint_step loads ev s = Inr s'"
  shows "session_variables s' = session_variables s"
proof (cases ev)
  case (Connect now later outcome)
  with assms(2) show ?thesis
    by (auto simp add: endpoint_step_def dest: create_client_step_variables split: if_splits)
next
  case (Receive now later outcome)
  with assms show ?thesis
    by (auto simp add: endpoint_step_def dest: receive_step_variables split: if_splits)
qed

lemma run_endpoint_variables:
  "\<forall>ev\<in>set events. \<not> is_session_update loads ev \<Longrightarrow> run_endpoint loads events s = Inr s' \<Longrightarrow>
     session_variables s' = session_variables s"
proof (induction events arbitrary: s)
  case Nil
  then show ?case by simp
next
  case (Cons ev events)
  from Cons.prems(2) obtain s1 where s1: "endpoint_step loads ev s = Inr s1"
    and r: "run_endpoint loads events s1 = Inr s'"
    by (auto split: sum.splits)
  from Cons.prems(1) have "\<not> is_session_update loads ev" by simp
  from endpoint_step_variables[OF this s1] have "session_variables s1 = session_variables s" .
  moreover from Cons.IH[OF _ r] Cons.prems(1) have "session_variables s' = session_variables s1" by simp
  ultimately show ?case by simp
qed

lemma session_update_frame_variables:
  assumes "text_data \<noteq> ustr ''pong''"
    and "loads text_data = Some (PDict payload)"
    and "dict_get payload (ustr ''type'') PNone = PStr (ustr ''session.update'')"
  shows "session_variables (handle_text_frame loads now text_data s) =
           (target_language_var s, dict_get payload (ustr ''voice'') PNone,
            dict_get payload (ustr ''audio_enabled'') PNone)"
  using assms by (simp add: handle_text_frame_def session_variables_def Let_def split: option.splits)

text \<open>
  Claim C10, as the code has it. After a \<open>session.update\<close> frame, and as long as no
  other such frame comes, the variables that a client creation takes are: the target
  language of the connection, unchanged, and the \<open>voice\<close> and \<open>audio_enabled\<close> of
  the frame, which are \<open>None\<close> when the frame omits them; every client that a
  reconnection creates from there is constructed with these arguments.
\<close>

theorem session_update_assigns_session_variables:
  assumes "text_data \<noteq> ustr ''pong''"
    and "loads text_data = Some (PDict payload)"
    and "dict_get payload (ustr ''type'') PNone = PStr (ustr ''session.update'')"
    and "\<forall>ev\<in>set events. \<not> is_session_update loads ev"
    and "run_endpoint loads events (handle_text_frame loads now text_data s) = Inr s'"
  shows "target_language_var s' = target_language_var s
     \<and> voice_var s' = dict_get payload (ustr ''voice'') PNone
     \<and> audio_enabled_var s' = dict_get payload (ustr ''audio_enabled'') PNone
     \<and> (map_of payload (ustr ''voice'') = None \<longrightarrow> voice_var s' = PNone)
     \<and> (map_of payload (ustr ''audio_enabled'') = None \<longrightarrow> audio_enabled_var s' = PNone)
     \<and> create_client_step t1 t2 outcome s' =
         (case create_and_connect_client t1 outcome (api_key_var s') (target_language_var s)
                 (dict_get payload (ustr ''voice'') PNone)
                 (dict_get payload (ustr ''audio_enabled'') PNone)
                 (osc_mute_control s') (send_to_osc s') of
            Inl e \<Rightarrow> handle_error t2 e s'
          | Inr c \<Rightarrow>
              Inr (s'\<lparr>client := Some c,
                      message_task := Some Running,
                      video_sender_task := Some Running,
                      reconnect_manager := reset (reconnect_manager s')\<rparr>))"
proof -
  have "session_variables (handle_text_frame loads now text_data s) =
           (target_language_var s, dict_get payload (ustr ''voice'') PNone,
            dict_get payload (ustr ''audio_enabled'') PNone)"
    using assms(1-3) by (rule session_update_frame_variables)
  with run_endpoint_variables[OF assms(4,5)]
  have v: "target_language_var s' = target_language_var s"
    "voice_var s' = dict_get payload (ustr ''voice'') PNone"
    "audio_enabled_var s' = dict_get payload (ustr ''audio_enabled'') PNone"
    by (simp_all add: session_variables_def)
  have "map_of payload (ustr ''voice'') = None \<longrightarrow> voice_var s' = PNone"
    "map_of payload (ustr ''audio_enabled'') = None \<longrightarrow> audio_enabled_var s' = PNone"
    using v by (simp_all add: dict_get_def)
  moreover have "create_client_step t1 t2 outcome s' =
         (case create_and_connect_client t1 outcome (api_key_var s') (target_language_var s)
                 (dict_get payload (ustr ''voice'') PNone)
                 (dict_get payload (ustr ''audio_enabled'') PNone)
                 (osc_mute_control s') (send_to_osc s') of
            Inl e \<Rightarrow> handle_error t2 e s'
          | Inr c \<Rightarrow>
              Inr (s'\<lparr>client := Some c,
                      message_task := Some Running,
                      video_sender_task := Some Running,
                      reconnect_manager := reset (reconnect_manager s')\<rparr>))"
    unfolding create_client_step_def v ..
  ultimately show ?thesis using v by simp
qed

lemmas endpoint_eval =
  endpoint_step_def receive_step_def handle_error_def error_code_of_def create_client_step_def
  create_and_connect_client_def new_client_def connect_def configure_session_def ws_send_def
  session_config_def handle_text_frame_def update_session_def dict_get_def close_def
  should_reconnect_def get_reconnect_delay_def backoff_power_def increment_attempts_def reset_def
  reconnect_constants cancel_if_pending_def client_session_def
  connected_endpoint_def connected_client_def websocket_endpoint_start_def
  new_reconnect_manager_def internal_error_closure_def open_connection_def reconnection_def
  language_update_def voice_update_def Let_def

lemma language_update_run:
  "run_endpoint (\<lambda>t. Some (PDict language_update)) reconnection
     (handle_text_frame (\<lambda>t. Some (PDict language_update)) 1 (ustr ''update'') connected_endpoint)
   = Inr (projr (run_endpoint (\<lambda>t. Some (PDict language_update)) reconnection
        (handle_text_frame (\<lambda>t. Some (PDict language_update)) 1 (ustr ''update'') connected_endpoint)))"
  by (simp add: endpoint_eval)

lemma language_update_client:
  "client_session (run_endpoint (\<lambda>t. Some (PDict language_update)) reconnection
     (handle_text_frame (\<lambda>t. Some (PDict language_update)) 1 (ustr ''update'') connected_endpoint))
   = Some (PStr (ustr ''en''), PStr (ustr ''Cherry''), PNone)"
  by (simp add: endpoint_eval)

theorem session_update_assigns_session_variables_witness:
  "ustr ''update'' \<noteq> ustr ''pong''
   \<and> dict_get language_update (ustr ''type'') PNone = PStr (ustr ''session.update'')
   \<and> map_of language_update (ustr ''voice'') = None
   \<and> map_of language_update (ustr ''audio_enabled'') = None
   \<and> session_variables (projr (run_endpoint (\<lambda>t. Some (PDict language_update)) reconnection
        (handle_text_frame (\<lambda>t. Some (PDict language_update)) 1 (ustr ''update'') connected_endpoint)))
       = (PStr (ustr ''en''), PNone, PNone)
   \<and> client_session (run_endpoint (\<lambda>t. Some (PDict language_update)) reconnection
        (handle_text_frame (\<lambda>t. Some (PDict language_update)) 1 (ustr ''update'') connected_endpoint))
       = Some (PStr (ustr ''en''), PStr (ustr ''Cherry''), PNone)"
proof -
  have a: "ustr ''update'' \<noteq> ustr ''pong''" by simp
  have b: "(\<lambda>t. Some (PDict language_update)) (ustr ''update'') = Some (PDict language_update)" by simp
  have c: "dict_get language_update (ustr ''type'') PNone = PStr (ustr ''session.update'')"
    by (simp add: dict_get_def language_update_def)
  have d: "\<forall>ev\<in>set reconnection. \<not> is_session_update (\<lambda>t. Some (PDict language_update)) ev"
    by (simp add: reconnection_def)
  have m: "map_of language_update (ustr ''voice'') = None"
    "map_of language_update (ustr ''audio_enabled'') = None"
    by (simp_all add: language_update_def)
  from session_update_assigns_session_variables[OF a b c d language_update_run] m
  have "session_variables (projr (run_endpoint (\<lambda>t. Some (PDict language_update)) reconnection
        (handle_text_frame (\<lambda>t. Some (PDict language_update)) 1 (ustr ''update'') connected_endpoint)))
       = (PStr (ustr ''en''), PNone, PNone)"
    by (simp add: session_variables_def connected_endpoint_def websocket_endpoint_start_def
        dict_get_def)
  with a c m language_update_client show ?thesis by simp
qed

text \<open>
  The last part of the claim as it is written, that every client of a later reconnection
  is constructed with \<open>voice=None\<close> and \<open>audio_enabled=None\<close>, fails for a frame that
  gives the two fields: the client of the reconnection is constructed with the values of
  the frame.
\<close>

theorem session_update_voice_counterexample:
  "client_session (run_endpoint (\<lambda>t. Some (PDict voice_update)) reconnection
     (handle_text_frame (\<lambda>t. Some (PDict voice_update)) 1 (ustr ''update'') connected_endpoint))
     = Some (PStr (ustr ''en''), PStr (ustr ''Ethan''), PBool True)
   \<and> session_variables (projr (run_endpoint (\<lambda>t. Some (PDict voice_update)) reconnection
        (handle_text_frame (\<lambda>t. Some (PDict voice_update)) 1 (ustr ''update'') connected_endpoint)))
     = (PStr (ustr ''en''), PStr (ustr ''Ethan''), PBool True)
   \<and> voice_var (projr (run_endpoint (\<lambda>t. Some (PDict voice_update)) reconnection
        (handle_text_frame (\<lambda>t. Some (PDict voice_update)) 1 (ustr ''update'') connected_endpoint)))
     \<noteq> PNone
   \<and> audio_enabled_var (projr (run_endpoint (\<lambda>t. Some (PDict voice_update)) reconnection
        (handle_text_frame (\<lambda>t. Some (PDict voice_update)) 1 (ustr ''update'') connected_endpoint)))
     \<noteq> PNone"
  by (simp add: endpoint_eval session_variables_def)

end
